theory Spec2Isabelle
  imports Main "HOL-Library.Word" "HOL-Library.Multiset"
begin

unbundle bit_operations_syntax

section \<open>Python strings\<close>

text \<open>
  Python \<^verbatim>\<open>str\<close> values are modelled as \<^typ>\<open>string\<close>, one \<^typ>\<open>char\<close> per
  code point; a \<^typ>\<open>char\<close> is one of the 256 code points U+0000 to U+00FF. On them
  \<open>py_isspace\<close>, \<open>py_lower\<close> and \<open>py_encode\<close> are \<^verbatim>\<open>str.isspace\<close>,
  \<^verbatim>\<open>str.lower\<close> and \<^verbatim>\<open>str.encode\<close>: the white space is U+0009 to U+000D, U+001C to
  U+0020, U+0085 and U+00A0; the letters with a lower case are \<open>A\<close> to \<open>Z\<close> and U+00C0
  to U+00DE without the multiplication sign U+00D7, each 32 below its lower case.
\<close>

definition py_isspace :: "char \<Rightarrow> bool" where
  "py_isspace c =
     (c \<in> set [CHR 0x09, CHR 0x0A, CHR 0x0B, CHR 0x0C, CHR 0x0D,
                CHR 0x1C, CHR 0x1D, CHR 0x1E, CHR 0x1F, CHR 0x20, CHR 0x85, CHR 0xA0])"

text \<open>\<^verbatim>\<open>s.strip()\<close>\<close>

definition py_strip :: "string \<Rightarrow> string" where
  "py_strip s = rev (dropWhile py_isspace (rev (dropWhile py_isspace s)))"

text \<open>\<^verbatim>\<open>s.lower()\<close>\<close>

definition py_lower_char :: "char \<Rightarrow> char" where
  "py_lower_char c =
     (case map_of
             (zip (''ABCDEFGHIJKLMNOPQRSTUVWXYZ'' @
              [CHR 0xC0, CHR 0xC1, CHR 0xC2, CHR 0xC3, CHR 0xC4, CHR 0xC5, CHR 0xC6, CHR 0xC7,
               CHR 0xC8, CHR 0xC9, CHR 0xCA, CHR 0xCB, CHR 0xCC, CHR 0xCD, CHR 0xCE, CHR 0xCF,
               CHR 0xD0, CHR 0xD1, CHR 0xD2, CHR 0xD3, CHR 0xD4, CHR 0xD5, CHR 0xD6, CHR 0xD8,
               CHR 0xD9, CHR 0xDA, CHR 0xDB, CHR 0xDC, CHR 0xDD, CHR 0xDE])
                  (''abcdefghijklmnopqrstuvwxyz'' @
              [CHR 0xE0, CHR 0xE1, CHR 0xE2, CHR 0xE3, CHR 0xE4, CHR 0xE5, CHR 0xE6, CHR 0xE7,
               CHR 0xE8, CHR 0xE9, CHR 0xEA, CHR 0xEB, CHR 0xEC, CHR 0xED, CHR 0xEE, CHR 0xEF,
               CHR 0xF0, CHR 0xF1, CHR 0xF2, CHR 0xF3, CHR 0xF4, CHR 0xF5, CHR 0xF6, CHR 0xF8,
               CHR 0xF9, CHR 0xFA, CHR 0xFB, CHR 0xFC, CHR 0xFD, CHR 0xFE])) c of
        None \<Rightarrow> c
      | Some l \<Rightarrow> l)"

definition py_lower :: "string \<Rightarrow> string" where
  "py_lower s = map py_lower_char s"

text \<open>\<^verbatim>\<open>hay.startswith(needle)\<close> and \<^verbatim>\<open>needle in hay\<close>\<close>

fun py_startswith :: "string \<Rightarrow> string \<Rightarrow> bool" where
  "py_startswith hay [] = True"
| "py_startswith [] (c # needle) = False"
| "py_startswith (h # hay) (c # needle) = (h = c \<and> py_startswith hay needle)"

fun py_in :: "string \<Rightarrow> string \<Rightarrow> bool" where
  "py_in needle [] = (needle = [])"
| "py_in needle (h # hay) = (py_startswith (h # hay) needle \<or> py_in needle hay)"

text \<open>\<^verbatim>\<open>sep.join(parts)\<close>\<close>

fun py_join :: "string \<Rightarrow> string list \<Rightarrow> string" where
  "py_join sep [] = []"
| "py_join sep [p] = p"
| "py_join sep (p # q # ps) = p @ sep @ py_join sep (q # ps)"

text \<open>\<^verbatim>\<open>s.replace(c, "")\<close> for a one-character \<open>c\<close>, and \<^verbatim>\<open>s.split(c)[0]\<close>\<close>

definition py_remove_char :: "char \<Rightarrow> string \<Rightarrow> string" where
  "py_remove_char c s = filter (\<lambda>d. d \<noteq> c) s"

definition py_split_first :: "char \<Rightarrow> string \<Rightarrow> string" where
  "py_split_first c s = takeWhile (\<lambda>d. d \<noteq> c) s"

definition newline :: string where
  "newline = [CHR 0x0A]"

text \<open>
  \<^verbatim>\<open>s.encode()\<close>: the UTF-8 bytes of the text, one byte for a code point below U+0080 and
  two bytes for the others.
\<close>

definition utf8_char :: "char \<Rightarrow> 8 word list" where
  "utf8_char c =
     (let b = (of_char c :: 8 word)
      in if b < 0x80 then [b] else [0xC0 OR drop_bit 6 b, 0x80 OR (b AND 0x3F)])"

definition py_encode :: "string \<Rightarrow> 8 word list" where
  "py_encode s = concat (map utf8_char s)"

text \<open>
  The three methods of \<^verbatim>\<open>str\<close> that the content hash goes through. The functions that
  compute and look up the hash take them as a parameter, over any alphabet \<open>'c\<close>, so
  what is proved of them holds for every title, whatever its characters; the program
  runs them with \<open>python_str\<close>, the methods of \<^typ>\<open>string\<close>.
\<close>

record 'c str_methods =
  str_lower :: "'c list \<Rightarrow> 'c list"
  str_strip :: "'c list \<Rightarrow> 'c list"
  str_encode :: "'c list \<Rightarrow> 8 word list"

definition python_str :: "char str_methods" where
  "python_str = \<lparr>str_lower = py_lower, str_strip = py_strip, str_encode = py_encode\<rparr>"

text \<open>
  \<^verbatim>\<open>f.read()\<close> on a file opened in mode \<^verbatim>\<open>"r"\<close>: every line ending of the contents, a
  carriage return followed by a line feed or a carriage return alone, is read as one
  line feed. The flag tells that the character before was a carriage return.
\<close>

fun translate_newlines :: "bool \<Rightarrow> string \<Rightarrow> string" where
  "translate_newlines after_cr [] = []"
| "translate_newlines after_cr (c # s) =
     (if c = CHR 0x0D then CHR 0x0A # translate_newlines True s
      else if c = CHR 0x0A \<and> after_cr then translate_newlines False s
      else c # translate_newlines False s)"

definition read_text :: "string \<Rightarrow> string" where
  "read_text content = translate_newlines False content"

section \<open>MD5\<close>

text \<open>
  \<^verbatim>\<open>hashlib.md5(bs).hexdigest()\<close>: the MD5 digest (RFC 1321) of a sequence of bytes, as
  32 lower-case hexadecimal digits.
\<close>

definition md5_shifts :: "nat list" where
  "md5_shifts =
     [7, 12, 17, 22, 7, 12, 17, 22, 7, 12, 17, 22, 7, 12, 17, 22,
      5, 9, 14, 20, 5, 9, 14, 20, 5, 9, 14, 20, 5, 9, 14, 20,
      4, 11, 16, 23, 4, 11, 16, 23, 4, 11, 16, 23, 4, 11, 16, 23,
      6, 10, 15, 21, 6, 10, 15, 21, 6, 10, 15, 21, 6, 10, 15, 21]"

definition md5_sines :: "32 word list" where
  "md5_sines =
     [0xd76aa478, 0xe8c7b756, 0x242070db, 0xc1bdceee,
      0xf57c0faf, 0x4787c62a, 0xa8304613, 0xfd469501,
      0x698098d8, 0x8b44f7af, 0xffff5bb1, 0x895cd7be,
      0x6b901122, 0xfd987193, 0xa679438e, 0x49b40821,
      0xf61e2562, 0xc040b340, 0x265e5a51, 0xe9b6c7aa,
      0xd62f105d, 0x02441453, 0xd8a1e681, 0xe7d3fbc8,
      0x21e1cde6, 0xc33707d6, 0xf4d50d87, 0x455a14ed,
      0xa9e3e905, 0xfcefa3f8, 0x676f02d9, 0x8d2a4c8a,
      0xfffa3942, 0x8771f681, 0x6d9d6122, 0xfde5380c,
      0xa4beea44, 0x4bdecfa9, 0xf6bb4b60, 0xbebfbc70,
      0x289b7ec6, 0xeaa127fa, 0xd4ef3085, 0x04881d05,
      0xd9d4d039, 0xe6db99e5, 0x1fa27cf8, 0xc4ac5665,
      0xf4292244, 0x432aff97, 0xab9423a7, 0xfc93a039,
      0x655b59c3, 0x8f0ccc92, 0xffeff47d, 0x85845dd1,
      0x6fa87e4f, 0xfe2ce6e0, 0xa3014314, 0x4e0811a1,
      0xf7537e82, 0xbd3af235, 0x2ad7d2bb, 0xeb86d391]"

definition md5_pad :: "8 word list \<Rightarrow> 8 word list" where
  "md5_pad bs =
     (let n = length bs;
          zeros = (55 + 64 - n mod 64) mod 64;
          bits = (word_of_nat (8 * n) :: 64 word)
      in bs @ [0x80] @ replicate zeros 0 @ map (\<lambda>i. ucast (drop_bit (8 * i) bits)) [0..<8])"

definition le_word32 :: "8 word list \<Rightarrow> 32 word" where
  "le_word32 bs = foldr (\<lambda>b acc. push_bit 8 acc OR ucast b) bs 0"

fun chunks_of :: "nat \<Rightarrow> 'a list \<Rightarrow> 'a list list" where
  "chunks_of n xs = (if n = 0 \<or> xs = [] then [] else take n xs # chunks_of n (drop n xs))"

definition md5_step ::
  "32 word list \<Rightarrow> 32 word \<times> 32 word \<times> 32 word \<times> 32 word \<Rightarrow> nat
     \<Rightarrow> 32 word \<times> 32 word \<times> 32 word \<times> 32 word" where
  "md5_step m st i =
     (case st of (a, b, c, d) \<Rightarrow>
        (let (f, g) =
               (if i < 16 then ((b AND c) OR (NOT b AND d), i)
                else if i < 32 then ((d AND b) OR (NOT d AND c), (5 * i + 1) mod 16)
                else if i < 48 then (b XOR c XOR d, (3 * i + 5) mod 16)
                else (c XOR (b OR NOT d), (7 * i) mod 16));
             f2 = f + a + md5_sines ! i + m ! g
         in (d, b + word_rotl (md5_shifts ! i) f2, b, c)))"

definition md5_chunk ::
  "32 word \<times> 32 word \<times> 32 word \<times> 32 word \<Rightarrow> 8 word list
     \<Rightarrow> 32 word \<times> 32 word \<times> 32 word \<times> 32 word" where
  "md5_chunk h chunk =
     (let m = map le_word32 (chunks_of 4 chunk)
      in case (h, foldl (md5_step m) h [0..<64]) of
           ((a0, b0, c0, d0), (a, b, c, d)) \<Rightarrow> (a0 + a, b0 + b, c0 + c, d0 + d))"

definition hex_digit :: "nat \<Rightarrow> char" where
  "hex_digit n = ''0123456789abcdef'' ! (n mod 16)"

definition hex_byte :: "8 word \<Rightarrow> string" where
  "hex_byte b = [hex_digit (unat b div 16), hex_digit (unat b mod 16)]"

definition le_bytes32 :: "32 word \<Rightarrow> 8 word list" where
  "le_bytes32 x = map (\<lambda>i. ucast (drop_bit (8 * i) x)) [0..<4]"

definition md5_hexdigest :: "8 word list \<Rightarrow> string" where
  "md5_hexdigest bs =
     (case foldl md5_chunk (0x67452301, 0xefcdab89, 0x98badcfe, 0x10325476)
             (chunks_of 64 (md5_pad bs)) of
        (a, b, c, d) \<Rightarrow> concat (map hex_byte (concat (map le_bytes32 [a, b, c, d]))))"

section \<open>Data model\<close>

text \<open>
  An article is the dictionary \<open>fetch_rss\<close> builds from a feed entry. The entry's
  \<^verbatim>\<open>published_parsed\<close> is a time tuple (year, month, day, hour, minute, second, ...)
  or absent.
\<close>

record article =
  title :: string
  url :: string
  published_parsed :: "int list option"

text \<open>An exception, with the text \<^verbatim>\<open>str(e)\<close> gives.\<close>

datatype py_error = Exception string

text \<open>
  The module-level dictionaries \<open>RSS_FEEDS\<close>, \<open>CATEGORY_HASHTAGS\<close>,
  \<open>FALLBACK_KEYWORDS\<close> and \<open>EVERGREEN_HOOKS\<close>, in declaration order. The functions
  below take them as a parameter, so every result holds for the repository's tables and
  for any other configuration.
\<close>

record config =
  RSS_FEEDS :: "(string \<times> string list) list"
  CATEGORY_HASHTAGS :: "(string \<times> string list) list"
  FALLBACK_KEYWORDS :: "(string \<times> string list) list"
  EVERGREEN_HOOKS :: "(string \<times> string list) list"

text \<open>\<^verbatim>\<open>d.get(key, [])\<close>\<close>

definition dict_get :: "(string \<times> string list) list \<Rightarrow> string \<Rightarrow> string list" where
  "dict_get d k = (case map_of d k of None \<Rightarrow> [] | Some v \<Rightarrow> v)"

text \<open>
  Instants are microseconds (the resolution of \<^verbatim>\<open>datetime\<close>) since the start of
  proleptic day 0, in UTC.
\<close>

type_synonym instant = int

definition microseconds :: "int \<Rightarrow> int" where
  "microseconds secs = secs * 1000000"

definition POST_INTERVAL_MINUTES :: int where
  "POST_INTERVAL_MINUTES = 120"

text \<open>\<^verbatim>\<open>FRESHNESS_WINDOW = timedelta(hours=24)\<close>\<close>

definition FRESHNESS_WINDOW :: int where
  "FRESHNESS_WINDOW = microseconds (24 * 3600)"

text \<open>
  Everything outside the process that the functions call. A reply may change from one
  call to the next, so each oracle is indexed by the number of external events that
  happened before the call.
  \<^item> \<open>feed_reply\<close>: the entries \<^verbatim>\<open>requests.get\<close> and \<^verbatim>\<open>feedparser.parse\<close> give for a
    feed, or the exception one of them (or reading an entry) raises;
  \<^item> \<open>head_reply\<close>, \<open>get_reply\<close>: the status code of \<^verbatim>\<open>requests.head\<close> and
    \<^verbatim>\<open>requests.get\<close>, or their exception;
  \<^item> \<open>extract_reply\<close>: what \<open>extract_article_content\<close> returns (it catches its own
    exceptions);
  \<^item> \<open>gpt_reply\<close>: the message text of a chat completion for a model and a prompt, or
    the exception;
  \<^item> \<open>tweet_reply\<close>: \<^verbatim>\<open>twitter_client.create_tweet\<close>;
  \<^item> \<open>random_reply\<close>: the random number generator;
  \<^item> \<open>latency\<close>: the time an event takes.
\<close>

record env =
  feed_reply :: "nat \<Rightarrow> string \<Rightarrow> py_error + article list"
  head_reply :: "nat \<Rightarrow> string \<Rightarrow> py_error + nat"
  get_reply :: "nat \<Rightarrow> string \<Rightarrow> py_error + nat"
  extract_reply :: "nat \<Rightarrow> string \<Rightarrow> string option"
  gpt_reply :: "nat \<Rightarrow> string \<Rightarrow> string \<Rightarrow> py_error + string"
  tweet_reply :: "nat \<Rightarrow> string \<Rightarrow> py_error + unit"
  random_reply :: "nat \<Rightarrow> nat"
  latency :: "nat \<Rightarrow> int"

datatype event =
    Fetch string
  | Head string
  | Get string
  | Extract string
  | Gpt string string
  | Tweet string
  | Sleep int
  | Random

text \<open>
  The state the functions read and write: the wall clock, the global
  \<open>last_post_time\<close>, the two log files (\<open>None\<close> while the file does not exist,
  otherwise its contents) and the external events so far, oldest first.
\<close>

record world =
  clock :: instant
  last_post_time :: "instant option"
  POSTED_LOG :: "string option"
  CONTENT_HASH_LOG :: "string option"
  trace :: "event list"

definition emit :: "env \<Rightarrow> event \<Rightarrow> world \<Rightarrow> world" where
  "emit e ev w =
     w\<lparr>trace := trace w @ [ev], clock := clock w + latency e (length (trace w))\<rparr>"

text \<open>\<^verbatim>\<open>time.sleep(secs)\<close>\<close>

definition sleep :: "env \<Rightarrow> int \<Rightarrow> world \<Rightarrow> world" where
  "sleep e secs w = (emit e (Sleep secs) w)\<lparr>clock := clock (emit e (Sleep secs) w) + microseconds secs\<rparr>"

text \<open>
  Appending to a file opened in mode \<^verbatim>\<open>"a"\<close> creates it when it is missing. The text
  is written as it is: the line separator of the platform is taken to be the line feed,
  and the encoding of the files to be UTF-8, in which every text can be written and is
  read back the same up to its line endings.
\<close>

definition append_file :: "string option \<Rightarrow> string \<Rightarrow> string option" where
  "append_file f s = (case f of None \<Rightarrow> Some s | Some content \<Rightarrow> Some (content @ s))"

section \<open>Utility functions\<close>

definition has_been_posted :: "world \<Rightarrow> string \<Rightarrow> bool" where
  "has_been_posted w u =
     (case POSTED_LOG w of
        None \<Rightarrow> False
      | Some content \<Rightarrow> py_in (py_strip u) (read_text content))"

definition get_content_hash :: "'c str_methods \<Rightarrow> 'c list \<Rightarrow> string" where
  "get_content_hash py t =
     (let normalized = str_strip py (str_lower py t)
      in md5_hexdigest (str_encode py normalized))"

definition has_similar_content_posted :: "'c str_methods \<Rightarrow> world \<Rightarrow> 'c list \<Rightarrow> bool" where
  "has_similar_content_posted py w t =
     (case CONTENT_HASH_LOG w of
        None \<Rightarrow> False
      | Some content \<Rightarrow> py_in (get_content_hash py t) (read_text content))"

definition log_content_hash :: "'c str_methods \<Rightarrow> world \<Rightarrow> 'c list \<Rightarrow> world" where
  "log_content_hash py w t =
     w\<lparr>CONTENT_HASH_LOG :=
         append_file (CONTENT_HASH_LOG w) (get_content_hash py t @ newline)\<rparr>"

definition log_posted :: "world \<Rightarrow> string \<Rightarrow> world" where
  "log_posted w u = w\<lparr>POSTED_LOG := append_file (POSTED_LOG w) (py_strip u @ newline)\<rparr>"

definition validate_tweet_length :: "string \<Rightarrow> string" where
  "validate_tweet_length text = (if length text > 280 then take 277 text @ ''...'' else text)"

text \<open>
  \<^verbatim>\<open>time_since_last.total_seconds() >= POST_INTERVAL_MINUTES * 60\<close>: the float that
  \<^verbatim>\<open>total_seconds\<close> returns is the difference in microseconds divided by \<open>10^6\<close>,
  compared here as integers.
\<close>

definition can_post_now :: "world \<Rightarrow> bool" where
  "can_post_now w =
     (case last_post_time w of
        None \<Rightarrow> True
      | Some t \<Rightarrow> (let time_since_last = clock w - t
                  in time_since_last \<ge> microseconds (POST_INTERVAL_MINUTES * 60)))"

section \<open>News fetching\<close>

text \<open>
  \<open>fetch_rss\<close> keeps the first five entries of the feed and returns the empty list when
  anything raises.
\<close>

definition fetch_rss :: "env \<Rightarrow> world \<Rightarrow> string \<Rightarrow> article list \<times> world" where
  "fetch_rss e w feed_url =
     (case feed_reply e (length (trace w)) feed_url of
        Inl ex \<Rightarrow> ([], emit e (Fetch feed_url) w)
      | Inr entries \<Rightarrow> (take 5 entries, emit e (Fetch feed_url) w))"

text \<open>
  \<^verbatim>\<open>datetime(*args, tzinfo=pytz.UTC)\<close> for a tuple of integers: \<open>None\<close> where the
  constructor raises (fewer than three fields, or a field out of range).
\<close>

definition is_leap :: "int \<Rightarrow> bool" where
  "is_leap y = (y mod 4 = 0 \<and> (y mod 100 \<noteq> 0 \<or> y mod 400 = 0))"

definition days_in_month :: "int \<Rightarrow> int \<Rightarrow> int" where
  "days_in_month y m =
     (if m = 2 then (if is_leap y then 29 else 28)
      else if m = 4 \<or> m = 6 \<or> m = 9 \<or> m = 11 then 30 else 31)"

definition days_before_year :: "int \<Rightarrow> int" where
  "days_before_year y = (y - 1) * 365 + (y - 1) div 4 - (y - 1) div 100 + (y - 1) div 400"

definition days_before_month :: "int \<Rightarrow> int \<Rightarrow> int" where
  "days_before_month y m = sum_list (map (days_in_month y) [1..m - 1])"

definition toordinal :: "int \<Rightarrow> int \<Rightarrow> int \<Rightarrow> int" where
  "toordinal y m d = days_before_year y + days_before_month y m + d"

definition field_or_zero :: "int list \<Rightarrow> nat \<Rightarrow> int" where
  "field_or_zero xs i = (if i < length xs then xs ! i else 0)"

definition datetime_utc :: "int list \<Rightarrow> instant option" where
  "datetime_utc args =
     (case args of
        year # month # day # rest \<Rightarrow>
          (let hour = field_or_zero rest 0;
               minute = field_or_zero rest 1;
               second = field_or_zero rest 2
           in if 1 \<le> year \<and> year \<le> 9999 \<and> 1 \<le> month \<and> month \<le> 12
                 \<and> 1 \<le> day \<and> day \<le> days_in_month year month
                 \<and> 0 \<le> hour \<and> hour \<le> 23 \<and> 0 \<le> minute \<and> minute \<le> 59
                 \<and> 0 \<le> second \<and> second \<le> 59
              then Some (microseconds
                     (toordinal year month day * 86400 + hour * 3600 + minute * 60 + second))
              else None)
      | _ \<Rightarrow> None)"

definition is_fresh :: "world \<Rightarrow> article \<Rightarrow> bool" where
  "is_fresh w a =
     (case published_parsed a of
        None \<Rightarrow> True
      | Some pub_date \<Rightarrow>
          if pub_date = [] then True
          else (case datetime_utc (take 6 pub_date) of
                  None \<Rightarrow> True
                | Some dt \<Rightarrow> clock w - dt \<le> FRESHNESS_WINDOW))"

section \<open>URL validation\<close>

definition validate_url :: "env \<Rightarrow> world \<Rightarrow> string \<Rightarrow> bool \<times> world" where
  "validate_url e w u =
     (let w1 = emit e (Head u) w in
      case head_reply e (length (trace w)) u of
        Inl ex \<Rightarrow> (False, w1)
      | Inr status_code \<Rightarrow>
          if status_code = 200 then (True, w1)
          else if status_code \<in> set [301, 302, 307, 308] then (True, w1)
          else if status_code = 405 then
            (case get_reply e (length (trace w1)) u of
               Inl ex \<Rightarrow> (False, emit e (Get u) w1)
             | Inr status_code2 \<Rightarrow> (status_code2 = 200, emit e (Get u) w1))
          else if status_code = 403 then (False, w1)
          else (False, w1))"

section \<open>Collecting the articles of a category\<close>

text \<open>
  The module defines \<open>get_articles_for_category\<close> twice; the second definition replaces
  the first when the module is loaded, and is the one modelled. Its three loops:
\<close>

fun feeds_loop :: "env \<Rightarrow> string list \<Rightarrow> article list \<Rightarrow> world \<Rightarrow> article list \<times> world" where
  "feeds_loop e [] articles w = (articles, w)"
| "feeds_loop e (feed # feeds) articles w =
     (let (feed_articles, w1) = fetch_rss e w feed;
          articles1 = articles @ feed_articles
      in if articles1 \<noteq> [] then (articles1, w1) else feeds_loop e feeds articles1 w1)"

fun refetch_loop :: "env \<Rightarrow> string list \<Rightarrow> article list \<Rightarrow> world \<Rightarrow> article list \<times> world" where
  "refetch_loop e [] articles w = (articles, w)"
| "refetch_loop e (feed # feeds) articles w =
     (let (feed_articles, w1) = fetch_rss e w feed
      in refetch_loop e feeds (articles @ feed_articles) w1)"

fun keywords_loop ::
  "env \<Rightarrow> string list \<Rightarrow> string list \<Rightarrow> article list \<Rightarrow> world \<Rightarrow> article list \<times> world" where
  "keywords_loop e [] feeds articles w = (articles, w)"
| "keywords_loop e (alt # alts) feeds articles w =
     (let (articles1, w1) = refetch_loop e feeds articles w
      in if articles1 \<noteq> [] then (articles1, w1) else keywords_loop e alts feeds articles1 w1)"

definition get_articles_for_category ::
  "config \<Rightarrow> env \<Rightarrow> world \<Rightarrow> string \<Rightarrow> article list \<times> world" where
  "get_articles_for_category cfg e w category =
     (let feeds = dict_get (RSS_FEEDS cfg) category;
          (articles, w1) = feeds_loop e feeds [] w
      in case map_of (FALLBACK_KEYWORDS cfg) category of
           None \<Rightarrow> (articles, w1)
         | Some alts \<Rightarrow>
             if articles = [] then keywords_loop e alts feeds articles w1 else (articles, w1))"

section \<open>Randomness\<close>

text \<open>\<^verbatim>\<open>random.choice(xs)\<close> raises \<^verbatim>\<open>IndexError\<close> on an empty list.\<close>

definition random_choice :: "env \<Rightarrow> world \<Rightarrow> 'a list \<Rightarrow> (py_error + 'a) \<times> world" where
  "random_choice e w xs =
     (if xs = [] then (Inl (Exception ''Cannot choose from an empty sequence''), w)
      else (Inr (xs ! (random_reply e (length (trace w)) mod length xs)), emit e Random w))"

text \<open>
  \<^verbatim>\<open>random.sample(xs, k)\<close>: \<open>k\<close> elements at distinct positions, in the order drawn;
  \<^verbatim>\<open>ValueError\<close> when \<open>k\<close> exceeds the length.
\<close>

fun sample_loop :: "env \<Rightarrow> world \<Rightarrow> 'a list \<Rightarrow> nat \<Rightarrow> 'a list \<times> world" where
  "sample_loop e w xs 0 = ([], w)"
| "sample_loop e w xs (Suc k) =
     (if xs = [] then ([], w)
      else (let i = random_reply e (length (trace w)) mod length xs;
                (rest, w2) = sample_loop e (emit e Random w) (take i xs @ drop (Suc i) xs) k
            in (xs ! i # rest, w2)))"

definition random_sample :: "env \<Rightarrow> world \<Rightarrow> 'a list \<Rightarrow> nat \<Rightarrow> (py_error + 'a list) \<times> world" where
  "random_sample e w xs k =
     (if k > length xs then (Inl (Exception ''Sample larger than population or is negative''), w)
      else (let (picked, w1) = sample_loop e w xs k in (Inr picked, w1)))"

section \<open>Content-aware post generation\<close>

definition extract_article_content :: "env \<Rightarrow> world \<Rightarrow> string \<Rightarrow> string option \<times> world" where
  "extract_article_content e w u = (extract_reply e (length (trace w)) u, emit e (Extract u) w)"

text \<open>A chat completion: the model's name and the prompt, the stripped message text back.\<close>

definition chat_completion :: "env \<Rightarrow> world \<Rightarrow> string \<Rightarrow> string \<Rightarrow> (py_error + string) \<times> world" where
  "chat_completion e w model prompt =
     (gpt_reply e (length (trace w)) model prompt, emit e (Gpt model prompt) w)"

text \<open>\<^verbatim>\<open>if x:\<close> for an optional string: neither \<^verbatim>\<open>None\<close> nor empty.\<close>

definition py_truthy :: "string option \<Rightarrow> bool" where
  "py_truthy x = (case x of None \<Rightarrow> False | Some s \<Rightarrow> s \<noteq> [])"

definition make_prompt :: "string \<Rightarrow> string \<Rightarrow> string option \<Rightarrow> string option \<Rightarrow> string" where
  "make_prompt t category article_content trend_term =
     (let content_context = ''Title: '' @ t @ newline;
          content_context =
            (if py_truthy article_content
             then content_context @ ''Content: '' @ the article_content @ newline
             else content_context);
          content_context = content_context @ ''Category: '' @ category @ newline;
          content_context =
            (if py_truthy trend_term
             then content_context @ ''Trending topic: '' @ the trend_term @ newline
             else content_context)
      in ''Based on this news article, create an engaging Twitter post (under 200 characters to leave room for URL and hashtags):''
         @ newline @ newline @ content_context @ newline @ newline
         @ ''Requirements:'' @ newline
         @ ''- Be specific about the actual content/news'' @ newline
         @ ''- Make it engaging and conversational'' @ newline
         @ ''- Don'' @ [CHR 0x27] @ ''t use generic templates'' @ newline
         @ ''- Focus on the key newsworthy element'' @ newline
         @ ''- Use appropriate tone for '' @ category @ newline
         @ ''- Include relevant emojis if appropriate'' @ newline @ newline
         @ ''Write ONLY the tweet text, no quotes or explanations:'')"

text \<open>
  The loop over \<^verbatim>\<open>tags[:3]\<close>: a tag is kept when its bare word occurs in the text or
  in the title, it fits the remaining space and fewer than two tags are kept so far.
\<close>

fun tags_loop :: "string list \<Rightarrow> string \<Rightarrow> string \<Rightarrow> int \<Rightarrow> string list \<Rightarrow> string list" where
  "tags_loop [] gpt_text t remaining_space selected_tags = selected_tags"
| "tags_loop (tag # tags) gpt_text t remaining_space selected_tags =
     (if py_in (py_lower (py_remove_char CHR ''#'' tag)) (py_lower gpt_text)
         \<or> py_in (py_lower (py_remove_char CHR ''#'' tag)) (py_lower t)
      then (if int (length ('' '' @ tag)) \<le> remaining_space \<and> length selected_tags < 2
            then tags_loop tags gpt_text t
                   (remaining_space - int (length ('' '' @ tag))) (selected_tags @ [tag])
            else tags_loop tags gpt_text t remaining_space selected_tags)
      else tags_loop tags gpt_text t remaining_space selected_tags)"

definition category_prefixes :: "(string \<times> string list) list" where
  "category_prefixes =
     [(''Arsenal'', [''Arsenal news:'', ''Gunners update:'', ''Arsenal:'']),
      (''Manchester United'', [''Man Utd news:'', ''Red Devils update:'', ''MUFC:'']),
      (''EPL'', [''Premier League:'', ''EPL update:'']),
      (''F1'', [''F1 news:'', ''Formula 1:'']),
      (''MotoGP'', [''MotoGP news:'', ''Grand Prix update:'']),
      (''Kenyan Politics'', [''Kenya:'', ''Politics news:'']),
      (''Kenyan Tourism'', [''Kenya travel:'', ''Safari update:'']),
      (''World Finance'', [''Markets:'', ''Finance:'']),
      (''Crypto'', [''Crypto news:'', ''Blockchain update:'']),
      (''Cycling'', [''Cycling news:'', ''Pro cycling:'']),
      (''Space Exploration'', [''Space news:'', ''NASA update:'']),
      (''Tesla'', [''Tesla news:'', ''EV update:''])]"

definition generate_fallback_post ::
  "config \<Rightarrow> env \<Rightarrow> world \<Rightarrow> string \<Rightarrow> string \<Rightarrow> string option \<Rightarrow> (py_error + string) \<times> world" where
  "generate_fallback_post cfg e w t category trend_term =
     (let main_part = (if py_in '':'' t then py_strip (py_split_first CHR '':'' t) else take 80 t)
      in case random_choice e w
                (case map_of category_prefixes category of
                   None \<Rightarrow> [''News:''] | Some ps \<Rightarrow> ps) of
           (Inl ex, w1) \<Rightarrow> (Inl ex, w1)
         | (Inr prefix, w1) \<Rightarrow>
             (let tweet_text = prefix @ '' '' @ main_part;
                  tweet_text =
                    (if py_truthy trend_term
                     then ''Trending '' @ the trend_term @ '' - '' @ tweet_text
                     else tweet_text);
                  tags = dict_get (CATEGORY_HASHTAGS cfg) category;
                  tweet_text =
                    (if tags \<noteq> [] \<and> length tweet_text < 200
                     then tweet_text @ '' '' @ hd tags
                     else tweet_text)
              in (Inr (validate_tweet_length tweet_text), w1)))"

definition generate_content_aware_post ::
  "config \<Rightarrow> env \<Rightarrow> world \<Rightarrow> string \<Rightarrow> string \<Rightarrow> string \<Rightarrow> string option
     \<Rightarrow> (py_error + string) \<times> world" where
  "generate_content_aware_post cfg e w t category article_url trend_term =
     (let (article_content, w1) = extract_article_content e w article_url;
          prompt = make_prompt t category article_content trend_term
      in case chat_completion e w1 ''gpt-4o-mini'' prompt of
           (Inr content, w2) \<Rightarrow>
             (let gpt_text = py_strip content;
                  gpt_text =
                    (if py_truthy trend_term \<and> length gpt_text < 180
                     then ''Trending '' @ the trend_term @ '': '' @ gpt_text
                     else gpt_text);
                  tags = dict_get (CATEGORY_HASHTAGS cfg) category;
                  gpt_text =
                    (if tags \<noteq> []
                     then (let remaining_space = 240 - int (length gpt_text);
                               selected_tags = tags_loop (take 3 tags) gpt_text t remaining_space []
                           in if selected_tags \<noteq> []
                              then gpt_text @ '' '' @ py_join '' '' selected_tags
                              else gpt_text)
                     else gpt_text)
              in (Inr (validate_tweet_length gpt_text), w2))
         | (Inl ex, w2) \<Rightarrow>
             (case chat_completion e w2 ''gpt-3.5-turbo'' prompt of
                (Inr content, w3) \<Rightarrow> (Inr (validate_tweet_length (py_strip content)), w3)
              | (Inl ex2, w3) \<Rightarrow> generate_fallback_post cfg e w3 t category trend_term))"

section \<open>Posting\<close>

text \<open>
  \<open>pick_relevant_image\<close> returns \<^verbatim>\<open>None\<close> before anything else, so no media is
  uploaded and \<open>create_tweet\<close> gets the text alone. The loop runs over
  \<^verbatim>\<open>range(retries)\<close>; the exception's text decides what follows a failed attempt.
\<close>

definition retries :: nat where
  "retries = 3"

fun attempts_loop :: "env \<Rightarrow> nat list \<Rightarrow> world \<Rightarrow> string \<Rightarrow> bool \<times> world" where
  "attempts_loop e [] w text = (False, w)"
| "attempts_loop e (attempt # rest) w text =
     (let text = validate_tweet_length text;
          w1 = emit e (Tweet text) w
      in case tweet_reply e (length (trace w)) text of
           Inr ok \<Rightarrow> (True, w1\<lparr>last_post_time := Some (clock w1)\<rparr>)
         | Inl (Exception error_msg) \<Rightarrow>
             if py_in ''429'' error_msg then attempts_loop e rest (sleep e (15 * 60) w1) text
             else if py_in ''duplicate'' (py_lower error_msg) then (False, w1)
             else if attempt = retries - 1 then (False, w1)
             else attempts_loop e rest (sleep e 30 w1) text)"

definition post_tweet :: "env \<Rightarrow> world \<Rightarrow> string \<Rightarrow> string option \<Rightarrow> bool \<times> world" where
  "post_tweet e w text category =
     (if \<not> can_post_now w then (False, w)
      else attempts_loop e [0..<retries] w text)"

section \<open>News and fallback flow\<close>

definition fallback_tweet :: "config \<Rightarrow> env \<Rightarrow> world \<Rightarrow> string \<Rightarrow> (py_error + string) \<times> world" where
  "fallback_tweet cfg e w category =
     (case map_of (EVERGREEN_HOOKS cfg) category of
        Some hooks \<Rightarrow>
          (case random_choice e w hooks of
             (Inl ex, w1) \<Rightarrow> (Inl ex, w1)
           | (Inr tweet, w1) \<Rightarrow>
               (let tags = dict_get (CATEGORY_HASHTAGS cfg) category
                in if tags \<noteq> []
                   then (case random_sample e w1 tags (min 2 (length tags)) of
                           (Inl ex, w2) \<Rightarrow> (Inl ex, w2)
                         | (Inr additional_tags, w2) \<Rightarrow>
                             (Inr (validate_tweet_length
                                     (tweet @ '' '' @ py_join '' '' additional_tags)), w2))
                   else (Inr (validate_tweet_length tweet), w1)))
      | None \<Rightarrow>
          (Inr (validate_tweet_length
                  (''No fresh news today for '' @ category @ '', but the passion never stops!'')),
           w))"

text \<open>
  The loop of \<open>post_dynamic_update\<close> over the target articles. \<open>Inr True\<close>: an article
  was posted and recorded; \<open>Inr False\<close>: the loop ran to its end.
\<close>

fun articles_loop ::
  "config \<Rightarrow> env \<Rightarrow> string \<Rightarrow> string option \<Rightarrow> article list \<Rightarrow> world \<Rightarrow> (py_error + bool) \<times> world" where
  "articles_loop cfg e category trend_term [] w = (Inr False, w)"
| "articles_loop cfg e category trend_term (a # rest) w =
     (if has_been_posted w (url a) \<or> has_similar_content_posted python_str w (title a)
      then articles_loop cfg e category trend_term rest w
      else (case validate_url e w (url a) of
              (False, w1) \<Rightarrow> articles_loop cfg e category trend_term rest w1
            | (True, w1) \<Rightarrow>
                (case generate_content_aware_post cfg e w1 (title a) category (url a) trend_term of
                   (Inl ex, w2) \<Rightarrow> (Inl ex, w2)
                 | (Inr post_text, w2) \<Rightarrow>
                     (let tweet_text = post_text @ newline @ newline @ url a
                      in case post_tweet e w2 tweet_text (Some category) of
                           (True, w3) \<Rightarrow>
                             (Inr True,
                              log_content_hash python_str (log_posted w3 (url a)) (title a))
                         | (False, w3) \<Rightarrow> articles_loop cfg e category trend_term rest w3))))"



section \<open>Recorded and composed articles\<close>







section \<open>Scenarios\<close>

text \<open>
  A process that has just started, with no log files, and the environment of the
  end-to-end scenario: one article, a live URL, a language model that answers.
\<close>

definition start_world :: "instant \<Rightarrow> world" where
  "start_world now =
     \<lparr>clock = now, last_post_time = None, POSTED_LOG = None, CONTENT_HASH_LOG = None, trace = []\<rparr>"

definition scenario_env :: env where
  "scenario_env =
     \<lparr>feed_reply = (\<lambda>n u. Inr [\<lparr>title = ''Verstappen wins'', url = ''http://x/1'',
                                    published_parsed = None\<rparr>]),
      head_reply = (\<lambda>n u. Inr 200),
      get_reply = (\<lambda>n u. Inr 200),
      extract_reply = (\<lambda>n u. None),
      gpt_reply = (\<lambda>n m p. Inr ''Max does it again!''),
      tweet_reply = (\<lambda>n t. Inr ()),
      random_reply = (\<lambda>n. 0),
      latency = (\<lambda>n. 0)\<rparr>"

definition scenario_config :: config where
  "scenario_config =
     \<lparr>RSS_FEEDS = [(''F1'', [''https://www.formula1.com/en/latest/all-news.rss''])],
      CATEGORY_HASHTAGS =
        [(''F1'', [''#F1'', ''#Formula1'', ''#Motorsport'', ''#Verstappen'', ''#Hamilton'',
                   ''#Norris'', ''#Leclerc'', ''#McLaren'', ''#Ferrari'', ''#RedBull''])],
      FALLBACK_KEYWORDS = [(''F1'', [''Formula 1'', ''Grand Prix'', ''Motorsport''])],
      EVERGREEN_HOOKS =
        [(''F1'', [''Formula 1: where even the safety car has a fanbase.'',
                   ''Drivers chase glory, teams chase sponsors, fans chase sleep schedules.''])]\<rparr>"

definition just_posted_world :: world where
  "just_posted_world =
     \<lparr>clock = microseconds 60, last_post_time = Some 0, POSTED_LOG = None,
      CONTENT_HASH_LOG = None, trace = []\<rparr>"

definition new_year_article :: article where
  "new_year_article =
     \<lparr>title = ''Verstappen wins'', url = ''http://x/1'',
      published_parsed = Some [2024, 1, 1, 12, 0, 0, 0, 1, 0]\<rparr>"

definition undated_article :: article where
  "undated_article =
     \<lparr>title = ''Verstappen wins'', url = ''http://x/1'', published_parsed = None\<rparr>"

definition misdated_article :: article where
  "misdated_article =
     \<lparr>title = ''Verstappen wins'', url = ''http://x/1'',
      published_parsed = Some [2024, 2, 30, 12, 0, 0, 0, 1, 0]\<rparr>"


fun is_tweet :: "event \<Rightarrow> bool" where
  "is_tweet (Tweet t) = True"
| "is_tweet ev = False"

definition flaky_env :: env where
  "flaky_env =
     scenario_env\<lparr>tweet_reply :=
       (\<lambda>n t. if n = 0 then Inl (Exception ''429 Too Many Requests'')
              else if n = 2 then Inl (Exception ''503 Service Unavailable'')
              else Inr ())\<rparr>"

definition duplicate_env :: env where
  "duplicate_env =
     scenario_env\<lparr>tweet_reply :=
       (\<lambda>n t. Inl (Exception ''403 Forbidden: Duplicate content''))\<rparr>"

definition failing_env :: env where
  "failing_env =
     scenario_env\<lparr>tweet_reply := (\<lambda>n t. Inl (Exception ''503 Service Unavailable''))\<rparr>"

definition fetch_result :: "env \<Rightarrow> nat \<Rightarrow> string \<Rightarrow> article list" where
  "fetch_result e n feed_url =
     (case feed_reply e n feed_url of Inl ex \<Rightarrow> [] | Inr entries \<Rightarrow> take 5 entries)"

fun pass_results :: "env \<Rightarrow> nat \<Rightarrow> string list \<Rightarrow> article list list" where
  "pass_results e n [] = []"
| "pass_results e n (feed # feeds) = fetch_result e n feed # pass_results e (Suc n) feeds"

fun fallback_passes :: "env \<Rightarrow> nat \<Rightarrow> string list \<Rightarrow> string list \<Rightarrow> article list list" where
  "fallback_passes e n feeds [] = []"
| "fallback_passes e n feeds (alt # alts) =
     concat (pass_results e n feeds) # fallback_passes e (n + length feeds) feeds alts"

definition first_nonempty :: "'a list list \<Rightarrow> 'a list" where
  "first_nonempty rs = (case dropWhile (\<lambda>r. r = []) rs of [] \<Rightarrow> [] | r # _ \<Rightarrow> r)"

definition leading_empty :: "'a list list \<Rightarrow> nat" where
  "leading_empty rs = length (takeWhile (\<lambda>r. r = []) rs)"

definition two_feeds_config :: config where
  "two_feeds_config =
     scenario_config\<lparr>RSS_FEEDS :=
       [(''F1'', [''https://www.formula1.com/en/latest/all-news.rss'',
                  ''https://www.autosport.com/rss/f1/news/''])]\<rparr>"

definition late_feeds_env :: env where
  "late_feeds_env =
     scenario_env\<lparr>feed_reply :=
       (\<lambda>n u. if n < 2 then Inr []
              else if u = ''https://www.formula1.com/en/latest/all-news.rss''
              then Inr [\<lparr>title = ''Verstappen wins'', url = ''http://x/1'',
                         published_parsed = None\<rparr>]
              else Inr [\<lparr>title = ''Norris on pole'', url = ''http://y/1'',
                         published_parsed = None\<rparr>])\<rparr>"


definition dead_article :: article where
  "dead_article =
     \<lparr>title = ''Hamilton retires'', url = ''http://x/0'', published_parsed = None\<rparr>"


definition dead_then_live_env :: env where
  "dead_then_live_env =
     scenario_env\<lparr>
       feed_reply := (\<lambda>n u. Inr [dead_article, undated_article]),
       head_reply := (\<lambda>n u. if u = ''http://x/0'' then Inr 404 else Inr 200)\<rparr>"

definition fetched_world :: world where
  "fetched_world =
     \<lparr>clock = 0, last_post_time = None, POSTED_LOG = None, CONTENT_HASH_LOG = None,
      trace = [Fetch ''https://www.formula1.com/en/latest/all-news.rss'']\<rparr>"






section \<open>Substring search and the dedup store\<close>

lemma py_startswith_iff: "py_startswith hay needle \<longleftrightarrow> (\<exists>s. hay = needle @ s)"
  by (induction hay needle rule: py_startswith.induct) auto

lemma py_in_iff: "py_in needle hay \<longleftrightarrow> (\<exists>p s. hay = p @ needle @ s)"
proof (induction hay)
  case Nil
  then show ?case by auto
next
  case (Cons h hay)
  show ?case
  proof
    assume "py_in needle (h # hay)"
    then consider "py_startswith (h # hay) needle" | "py_in needle hay" by auto
    then show "\<exists>p s. h # hay = p @ needle @ s"
    proof cases
      case 1
      then obtain s where "h # hay = needle @ s" by (auto simp: py_startswith_iff)
      then have "h # hay = [] @ needle @ s" by simp
      then show ?thesis by blast
    next
      case 2
      then obtain p s where "hay = p @ needle @ s" using Cons.IH by blast
      then have "h # hay = (h # p) @ needle @ s" by simp
      then show ?thesis by blast
    qed
  next
    assume "\<exists>p s. h # hay = p @ needle @ s"
    then obtain p s where ps: "h # hay = p @ needle @ s" by blast
    show "py_in needle (h # hay)"
    proof (cases p)
      case Nil
      then have "py_startswith (h # hay) needle" using ps by (auto simp: py_startswith_iff)
      then show ?thesis by simp
    next
      case (Cons a p')
      then have "hay = p' @ needle @ s" using ps by simp
      then have "py_in needle hay" using Cons.IH by blast
      then show ?thesis by simp
    qed
  qed
qed

lemma py_in_append_right: "py_in needle hay \<Longrightarrow> py_in needle (hay @ suffix)"
  unfolding py_in_iff by (metis append.assoc)

lemma py_in_appended: "py_in needle (content @ needle @ suffix)"
  unfolding py_in_iff by blast

lemma validate_tweet_length_le: "length (validate_tweet_length text) \<le> 280"
  by (simp add: validate_tweet_length_def)

text \<open>
  What is read back from a log: a text without carriage return that does not start
  with a line feed is found in the contents read after it was appended, whatever the
  contents before it; and what was found stays found when more is appended.
\<close>

lemma translate_newlines_plain:
  "CHR 0x0D \<notin> set s \<Longrightarrow> translate_newlines False (s @ r) = s @ translate_newlines False r"
  by (induction s) auto

lemma translate_newlines_word:
  assumes "CHR 0x0D \<notin> set s" and "s \<noteq> []" and "hd s \<noteq> CHR 0x0A"
  shows "translate_newlines after_cr (s @ r) = s @ translate_newlines False r"
proof (cases s)
  case Nil
  with assms show ?thesis by simp
next
  case (Cons c s')
  with assms have c: "c \<noteq> CHR 0x0D" "c \<noteq> CHR 0x0A" and s': "CHR 0x0D \<notin> set s'"
    by auto
  from c have "translate_newlines after_cr ((c # s') @ r) = c # translate_newlines False (s' @ r)"
    by simp
  also have "\<dots> = c # s' @ translate_newlines False r"
    using s' by (simp add: translate_newlines_plain)
  finally show ?thesis using Cons by simp
qed

lemma translate_newlines_append:
  "\<exists>flag. translate_newlines after_cr (p @ q)
     = translate_newlines after_cr p @ translate_newlines flag q"
proof (induction p arbitrary: after_cr)
  case Nil
  show ?case by auto
next
  case (Cons c p)
  from Cons [of True] obtain f1 where f1:
    "translate_newlines True (p @ q) = translate_newlines True p @ translate_newlines f1 q"
    by blast
  from Cons [of False] obtain f2 where f2:
    "translate_newlines False (p @ q) = translate_newlines False p @ translate_newlines f2 q"
    by blast
  show ?case
  proof (cases "c = CHR 0x0D")
    case True
    with f1 show ?thesis by auto
  next
    case False
    with f2 show ?thesis by auto
  qed
qed

lemma read_text_appended:
  assumes "CHR 0x0D \<notin> set s" and "s \<noteq> []" and "hd s \<noteq> CHR 0x0A"
  shows "py_in s (read_text (content @ s @ suffix))"
proof -
  obtain flag where "translate_newlines False (content @ s @ suffix)
     = translate_newlines False content @ translate_newlines flag (s @ suffix)"
    using translate_newlines_append by blast
  then have "read_text (content @ s @ suffix)
     = translate_newlines False content @ s @ translate_newlines False suffix"
    using assms by (simp add: read_text_def translate_newlines_word)
  then show ?thesis by (simp only: py_in_appended)
qed

lemma read_text_mono:
  assumes "py_in s (read_text content)"
  shows "py_in s (read_text (content @ suffix))"
proof -
  obtain flag where "translate_newlines False (content @ suffix)
     = translate_newlines False content @ translate_newlines flag suffix"
    using translate_newlines_append by blast
  with assms show ?thesis by (simp add: read_text_def py_in_append_right)
qed

lemma py_in_empty: "py_in [] hay"
  by (cases hay) simp_all

lemma py_strip_subset: "set (py_strip u) \<subseteq> set u"
proof -
  have "set (py_strip u) \<subseteq> set (dropWhile py_isspace u)"
    unfolding py_strip_def using set_dropWhileD by fastforce
  also have "\<dots> \<subseteq> set u" using set_dropWhileD by fastforce
  finally show ?thesis .
qed

lemma rev_dropWhile_rev_prefix: "\<exists>r. xs = rev (dropWhile P (rev xs)) @ r"
proof -
  have "xs = rev (rev xs)" by simp
  also have "\<dots> = rev (takeWhile P (rev xs) @ dropWhile P (rev xs))"
    by (simp only: takeWhile_dropWhile_id)
  also have "\<dots> = rev (dropWhile P (rev xs)) @ rev (takeWhile P (rev xs))"
    by (rule rev_append)
  finally show ?thesis by blast
qed

lemma py_strip_hd:
  assumes "py_strip u \<noteq> []"
  shows "\<not> py_isspace (hd (py_strip u))"
proof -
  let ?d = "dropWhile py_isspace u"
  obtain r where r: "?d = py_strip u @ r"
    unfolding py_strip_def using rev_dropWhile_rev_prefix by blast
  with assms have d: "?d \<noteq> []" by auto
  from r assms have "hd ?d = hd (py_strip u)" by (metis hd_append2)
  moreover from d have "\<not> py_isspace (hd ?d)" by (rule hd_dropWhile)
  ultimately show ?thesis by simp
qed

text \<open>
  A recorded URL is reported as posted, unless it has a carriage return inside, which
  is read back as a line feed.
\<close>

lemma has_been_posted_after_log_posted:
  assumes "CHR 0x0D \<notin> set u"
  shows "has_been_posted (log_posted w u) u"
proof (cases "py_strip u = []")
  case True
  then show ?thesis
    by (simp add: has_been_posted_def log_posted_def append_file_def py_in_empty
        split: option.split)
next
  case False
  from assms py_strip_subset have cr: "CHR 0x0D \<notin> set (py_strip u)" by blast
  from False py_strip_hd have "\<not> py_isspace (hd (py_strip u))" by blast
  then have lf: "hd (py_strip u) \<noteq> CHR 0x0A" by (auto simp: py_isspace_def)
  show ?thesis
  proof (cases "POSTED_LOG w")
    case None
    have "py_in (py_strip u) (read_text ([] @ py_strip u @ newline))"
      using cr False lf by (rule read_text_appended)
    with None show ?thesis by (simp add: has_been_posted_def log_posted_def append_file_def)
  next
    case (Some content)
    have "py_in (py_strip u) (read_text (content @ py_strip u @ newline))"
      using cr False lf by (rule read_text_appended)
    with Some show ?thesis by (simp add: has_been_posted_def log_posted_def append_file_def)
  qed
qed

text \<open>
  With a carriage return inside, the URL written is not the URL read: it is recorded
  and still not reported as posted.
\<close>

lemma inner_carriage_return_not_found:
  "\<not> has_been_posted (log_posted (start_world 0) [CHR ''a'', CHR 0x0D, CHR ''b''])
       [CHR ''a'', CHR 0x0D, CHR ''b'']"
  by code_simp

lemma posted_log_after_first_record:
  "POSTED_LOG (log_posted (start_world 0) u) = Some (py_strip u @ newline)"
  by (simp add: log_posted_def start_world_def append_file_def)

lemma strip_x12: "py_strip ''http://x/12'' = ''http://x/12''"
  by (simp add: py_strip_def py_isspace_def)

lemma strip_x1: "py_strip ''http://x/1'' = ''http://x/1''"
  by (simp add: py_strip_def py_isspace_def)

lemma read_x12: "read_text (''http://x/12'' @ newline) = ''http://x/1'' @ (''2'' @ newline)"
  by (simp add: read_text_def newline_def)

text \<open>
  Claim C1. \<open>has_been_posted\<close> tests whether the stripped URL occurs anywhere in the
  contents of the log, so a URL that was never recorded is reported as posted when it is
  a part of a recorded one: after \<^verbatim>\<open>http://x/12\<close> is recorded in an empty store,
  \<^verbatim>\<open>http://x/1\<close> is reported as posted.
\<close>

theorem C1_prefix_of_recorded_url_reported_posted:
  "\<not> has_been_posted (start_world 0) ''http://x/1''
   \<and> POSTED_LOG (log_posted (start_world 0) ''http://x/12'') = Some (''http://x/12'' @ newline)
   \<and> has_been_posted (log_posted (start_world 0) ''http://x/12'') ''http://x/1''"
proof -
  have a: "\<not> has_been_posted (start_world 0) ''http://x/1''"
    by (simp add: has_been_posted_def start_world_def)
  have b: "POSTED_LOG (log_posted (start_world 0) ''http://x/12'') = Some (''http://x/12'' @ newline)"
    by (simp only: posted_log_after_first_record strip_x12)
  have "py_in ''http://x/1'' ([] @ ''http://x/1'' @ (''2'' @ newline))"
    by (rule py_in_appended)
  then have "py_in ''http://x/1'' (read_text (''http://x/12'' @ newline))"
    by (simp only: read_x12 append_Nil)
  then have c: "has_been_posted (log_posted (start_world 0) ''http://x/12'') ''http://x/1''"
    by (simp only: has_been_posted_def b strip_x1 option.case)
  from a b c show ?thesis by blast
qed

text \<open>A content hash is 32 hexadecimal digits, whatever the title and its alphabet.\<close>

lemma hex_digit_in: "hex_digit n \<in> set ''0123456789abcdef''"
  unfolding hex_digit_def by (rule nth_mem) simp

lemma hex_byte_set: "set (hex_byte b) \<subseteq> set ''0123456789abcdef''"
  unfolding hex_byte_def using hex_digit_in by auto

lemma md5_hexdigest_set: "set (md5_hexdigest bs) \<subseteq> set ''0123456789abcdef''"
proof -
  obtain a b c d where f: "foldl md5_chunk (0x67452301, 0xefcdab89, 0x98badcfe, 0x10325476)
             (chunks_of 64 (md5_pad bs)) = (a, b, c, d)"
    by (metis prod_cases4)
  have "set (concat (map hex_byte xs)) \<subseteq> set ''0123456789abcdef''" for xs
    using hex_byte_set by (induction xs) auto
  then show ?thesis unfolding md5_hexdigest_def f by simp
qed

lemma md5_hexdigest_length: "length (md5_hexdigest bs) = 32"
proof -
  obtain a b c d where f: "foldl md5_chunk (0x67452301, 0xefcdab89, 0x98badcfe, 0x10325476)
             (chunks_of 64 (md5_pad bs)) = (a, b, c, d)"
    by (metis prod_cases4)
  show ?thesis
    unfolding md5_hexdigest_def f by (simp add: le_bytes32_def hex_byte_def upt_conv_Cons)
qed

lemma get_content_hash_word:
  "CHR 0x0D \<notin> set (get_content_hash py t) \<and> get_content_hash py t \<noteq> []
   \<and> hd (get_content_hash py t) \<noteq> CHR 0x0A"
proof -
  let ?h = "get_content_hash py t"
  have s: "set ?h \<subseteq> set ''0123456789abcdef''"
    by (simp only: get_content_hash_def Let_def md5_hexdigest_set)
  have "length ?h = 32" by (simp only: get_content_hash_def Let_def md5_hexdigest_length)
  then have n: "?h \<noteq> []" by auto
  then have "hd ?h \<in> set ?h" by (rule hd_in_set)
  with s have h: "hd ?h \<in> set ''0123456789abcdef''" by blast
  have "CHR 0x0D \<notin> set ''0123456789abcdef''" by simp
  with s have c: "CHR 0x0D \<notin> set ?h" by blast
  have "CHR 0x0A \<notin> set ''0123456789abcdef''" by simp
  with h have "hd ?h \<noteq> CHR 0x0A" by metis
  with c n show ?thesis by blast
qed

lemma has_similar_after_log: "has_similar_content_posted py (log_content_hash py w t) t"
proof -
  note h = get_content_hash_word [of py t]
  show ?thesis
  proof (cases "CONTENT_HASH_LOG w")
    case None
    have "py_in (get_content_hash py t) (read_text ([] @ get_content_hash py t @ newline))"
      using h by (intro read_text_appended) simp_all
    with None show ?thesis
      by (simp add: has_similar_content_posted_def log_content_hash_def append_file_def)
  next
    case (Some content)
    have "py_in (get_content_hash py t) (read_text (content @ get_content_hash py t @ newline))"
      using h by (intro read_text_appended) simp_all
    with Some show ?thesis
      by (simp add: has_similar_content_posted_def log_content_hash_def append_file_def)
  qed
qed

lemma has_similar_log_content_hash_mono:
  assumes "has_similar_content_posted py w t"
  shows "has_similar_content_posted py (log_content_hash py w t') t"
proof (cases "CONTENT_HASH_LOG w")
  case None
  with assms show ?thesis by (simp add: has_similar_content_posted_def)
next
  case (Some content)
  with assms have "py_in (get_content_hash py t) (read_text content)"
    by (simp add: has_similar_content_posted_def)
  then have "py_in (get_content_hash py t) (read_text (content @ get_content_hash py t' @ newline))"
    by (rule read_text_mono)
  with Some show ?thesis
    by (simp add: has_similar_content_posted_def log_content_hash_def append_file_def)
qed

lemma has_similar_foldl_mono:
  "has_similar_content_posted py w t
   \<Longrightarrow> has_similar_content_posted py (foldl (log_content_hash py) w ts) t"
  by (induction ts arbitrary: w) (simp_all add: has_similar_log_content_hash_mono)

text \<open>
  Claim C7. Two titles with the same lower-cased, stripped text have the same content
  hash, and once the first is recorded \<open>has_similar_content_posted\<close> holds of the
  second, also after any further titles are recorded. The titles are over any alphabet
  and the three \<^verbatim>\<open>str\<close> methods are any functions, so this holds of every pair of
  titles, with the methods of Python on them.
\<close>

theorem C7_fingerprint_roundtrip:
  assumes "str_strip py (str_lower py t1) = str_strip py (str_lower py t2)"
  shows "get_content_hash py t1 = get_content_hash py t2
         \<and> has_similar_content_posted py (log_content_hash py w t1) t2
         \<and> has_similar_content_posted py
             (foldl (log_content_hash py) (log_content_hash py w t1) ts) t2"
proof -
  have h: "get_content_hash py t1 = get_content_hash py t2"
    using assms by (simp add: get_content_hash_def)
  have "has_similar_content_posted py (log_content_hash py w t1) t1"
    by (rule has_similar_after_log)
  then have r: "has_similar_content_posted py (log_content_hash py w t1) t2"
    by (simp only: has_similar_content_posted_def h)
  from r have "has_similar_content_posted py
      (foldl (log_content_hash py) (log_content_hash py w t1) ts) t2"
    by (rule has_similar_foldl_mono)
  with h r show ?thesis by simp
qed

lemma lower_example: "py_lower ''  Verstappen WINS '' = ''  verstappen wins ''"
  by (simp add: py_lower_def py_lower_char_def)

lemma strip_example: "py_strip ''  verstappen wins '' = ''verstappen wins''"
  by (simp add: py_strip_def py_isspace_def)

lemma lower_example2: "py_lower ''verstappen wins'' = ''verstappen wins''"
  by (simp add: py_lower_def py_lower_char_def)

lemma strip_example2: "py_strip ''verstappen wins'' = ''verstappen wins''"
  by (simp add: py_strip_def py_isspace_def)

lemma normalized_example:
  "str_strip python_str (str_lower python_str ''  Verstappen WINS '')
   = str_strip python_str (str_lower python_str ''verstappen wins'')"
  by (simp only: python_str_def str_methods.simps lower_example lower_example2 strip_example
      strip_example2)

lemma lower_example3:
  "py_lower ([CHR 0xC9] @ ''T'' @ [CHR 0xC9, CHR 0xA0]) = [CHR 0xE9] @ ''t'' @ [CHR 0xE9, CHR 0xA0]"
  by (simp add: py_lower_def py_lower_char_def)

lemma strip_example3:
  "py_strip ([CHR 0xE9] @ ''t'' @ [CHR 0xE9, CHR 0xA0]) = [CHR 0xE9] @ ''t'' @ [CHR 0xE9]"
  by (simp add: py_strip_def py_isspace_def)

lemma lower_example4:
  "py_lower ([CHR 0x85, CHR 0xE9] @ ''t'' @ [CHR 0xE9]) = [CHR 0x85, CHR 0xE9] @ ''t'' @ [CHR 0xE9]"
  by (simp add: py_lower_def py_lower_char_def)

lemma strip_example4:
  "py_strip ([CHR 0x85, CHR 0xE9] @ ''t'' @ [CHR 0xE9]) = [CHR 0xE9] @ ''t'' @ [CHR 0xE9]"
  by (simp add: py_strip_def py_isspace_def)

lemma normalized_example_latin:
  "str_strip python_str (str_lower python_str ([CHR 0xC9] @ ''T'' @ [CHR 0xC9, CHR 0xA0]))
   = str_strip python_str (str_lower python_str ([CHR 0x85, CHR 0xE9] @ ''t'' @ [CHR 0xE9]))"
  by (simp only: python_str_def str_methods.simps lower_example3 lower_example4 strip_example3
      strip_example4)

lemma hash_example_latin:
  "get_content_hash python_str ([CHR 0x85, CHR 0xE9] @ ''t'' @ [CHR 0xE9])
   = ''deaf6a1e9612a4d8c221e68ee23d58d2''"
  by code_simp

lemma hash_example_utf8:
  "get_content_hash python_str (''Caf'' @ [CHR 0xC9]) = ''07117fe4a1ebd544965dc19573183da2''"
  by code_simp

text \<open>
  Claim C7 at two pairs of titles, with the methods of \<^typ>\<open>string\<close>: an ASCII pair
  that differs in case and in the spaces around, and the pair
  U+00C9 \<open>T\<close> U+00C9 U+00A0 and U+0085 U+00E9 \<open>t\<close> U+00E9, whose common hash is the MD5
  digest of the UTF-8 bytes of U+00E9 \<open>t\<close> U+00E9.
\<close>

theorem C7_fingerprint_roundtrip_witness:
  "str_strip python_str (str_lower python_str ''  Verstappen WINS '')
     = str_strip python_str (str_lower python_str ''verstappen wins'')
   \<and> get_content_hash python_str ''  Verstappen WINS ''
     = get_content_hash python_str ''verstappen wins''
   \<and> has_similar_content_posted python_str
        (log_content_hash python_str (start_world 0) ''  Verstappen WINS '') ''verstappen wins''
   \<and> str_strip python_str (str_lower python_str ([CHR 0xC9] @ ''T'' @ [CHR 0xC9, CHR 0xA0]))
     = str_strip python_str (str_lower python_str ([CHR 0x85, CHR 0xE9] @ ''t'' @ [CHR 0xE9]))
   \<and> get_content_hash python_str ([CHR 0xC9] @ ''T'' @ [CHR 0xC9, CHR 0xA0])
     = get_content_hash python_str ([CHR 0x85, CHR 0xE9] @ ''t'' @ [CHR 0xE9])
   \<and> has_similar_content_posted python_str
        (log_content_hash python_str (start_world 0) ([CHR 0xC9] @ ''T'' @ [CHR 0xC9, CHR 0xA0]))
        ([CHR 0x85, CHR 0xE9] @ ''t'' @ [CHR 0xE9])
   \<and> get_content_hash python_str ([CHR 0x85, CHR 0xE9] @ ''t'' @ [CHR 0xE9])
     = ''deaf6a1e9612a4d8c221e68ee23d58d2''"
proof -
  note r = C7_fingerprint_roundtrip [OF normalized_example, of "start_world 0" "[]"]
  from r have a: "get_content_hash python_str ''  Verstappen WINS ''
      = get_content_hash python_str ''verstappen wins''"
    by (rule conjunct1)
  from r have b: "has_similar_content_posted python_str
        (log_content_hash python_str (start_world 0) ''  Verstappen WINS '') ''verstappen wins''"
    by (rule conjunct1 [OF conjunct2])
  note q = C7_fingerprint_roundtrip [OF normalized_example_latin, of "start_world 0" "[]"]
  from q have c: "get_content_hash python_str ([CHR 0xC9] @ ''T'' @ [CHR 0xC9, CHR 0xA0])
     = get_content_hash python_str ([CHR 0x85, CHR 0xE9] @ ''t'' @ [CHR 0xE9])"
    by (rule conjunct1)
  from q have d: "has_similar_content_posted python_str
        (log_content_hash python_str (start_world 0) ([CHR 0xC9] @ ''T'' @ [CHR 0xC9, CHR 0xA0]))
        ([CHR 0x85, CHR 0xE9] @ ''t'' @ [CHR 0xE9])"
    by (rule conjunct1 [OF conjunct2])
  from normalized_example a b normalized_example_latin c d hash_example_latin
  show ?thesis by (intro conjI)
qed

section \<open>Truncation, the publication gate and freshness\<close>

lemma emit_simps:
  "trace (emit e ev w) = trace w @ [ev]"
  "last_post_time (emit e ev w) = last_post_time w"
  "POSTED_LOG (emit e ev w) = POSTED_LOG w"
  "CONTENT_HASH_LOG (emit e ev w) = CONTENT_HASH_LOG w"
  "clock (emit e ev w) = clock w + latency e (length (trace w))"
  by (simp_all add: emit_def)

lemma sleep_simps:
  "trace (sleep e secs w) = trace w @ [Sleep secs]"
  "last_post_time (sleep e secs w) = last_post_time w"
  "POSTED_LOG (sleep e secs w) = POSTED_LOG w"
  "CONTENT_HASH_LOG (sleep e secs w) = CONTENT_HASH_LOG w"
  by (simp_all add: sleep_def emit_def)

lemma prefixes_nonempty:
  "(case map_of category_prefixes category of None \<Rightarrow> [''News:''] | Some ps \<Rightarrow> ps) \<noteq> []"
  by (simp add: category_prefixes_def)

lemma generate_fallback_post_length:
  "\<exists>post. fst (generate_fallback_post cfg e w t category trend_term) = Inr post
          \<and> length post \<le> 280"
proof -
  obtain ps where ps: "(case map_of category_prefixes category of
                          None \<Rightarrow> [''News:''] | Some ps \<Rightarrow> ps) = ps" and ne: "ps \<noteq> []"
    using prefixes_nonempty by blast
  show ?thesis
    unfolding generate_fallback_post_def ps
    using ne by (simp add: random_choice_def Let_def validate_tweet_length_le)
qed

lemma generate_content_aware_post_length:
  "\<exists>post. fst (generate_content_aware_post cfg e w t category u trend_term) = Inr post
          \<and> length post \<le> 280"
proof -
  obtain c1 w1 where x: "extract_article_content e w u = (c1, w1)" by (cases "extract_article_content e w u")
  obtain r2 w2 where g1: "chat_completion e w1 ''gpt-4o-mini'' (make_prompt t category c1 trend_term) = (r2, w2)"
    by (cases "chat_completion e w1 ''gpt-4o-mini'' (make_prompt t category c1 trend_term)")
  obtain r3 w3 where g2: "chat_completion e w2 ''gpt-3.5-turbo'' (make_prompt t category c1 trend_term) = (r3, w3)"
    by (cases "chat_completion e w2 ''gpt-3.5-turbo'' (make_prompt t category c1 trend_term)")
  show ?thesis
  proof (cases r2)
    case (Inr content)
    then show ?thesis
      by (simp add: generate_content_aware_post_def x g1 Let_def validate_tweet_length_le)
  next
    case (Inl ex)
    note l1 = this
    show ?thesis
    proof (cases r3)
      case (Inr content)
      with l1 show ?thesis
        by (simp add: generate_content_aware_post_def x g1 g2 validate_tweet_length_le)
    next
      case (Inl ex2)
      with l1 show ?thesis
        by (simp add: generate_content_aware_post_def x g1 g2 generate_fallback_post_length)
    qed
  qed
qed

text \<open>
  Claim C3. The final truncation returns at most 280 characters: a text of more than 280
  characters is cut to its first 277 characters followed by three dots, any other text is
  returned as it is. Every path of \<open>generate_content_aware_post\<close> (the first model,
  the second model, the template) ends in that truncation, so the composed post never
  raises and has at most 280 characters.
\<close>

theorem C3_final_truncation:
  "length (validate_tweet_length text) \<le> 280
   \<and> (280 < length text \<longrightarrow> validate_tweet_length text = take 277 text @ ''...'')
   \<and> (length text \<le> 280 \<longrightarrow> validate_tweet_length text = text)
   \<and> (\<exists>post. fst (generate_content_aware_post cfg e w t category u trend_term) = Inr post
              \<and> length post \<le> 280)"
  using generate_content_aware_post_length [of cfg e w t category u trend_term]
  by (simp add: validate_tweet_length_def)

text \<open>
  The truncation at a text of 300 characters and at a short one, and the composed post
  of the end-to-end scenario.
\<close>

theorem C3_final_truncation_witness:
  "280 < length (replicate 300 CHR ''a'')
   \<and> validate_tweet_length (replicate 300 CHR ''a'') = take 277 (replicate 300 CHR ''a'') @ ''...''
   \<and> length (validate_tweet_length (replicate 300 CHR ''a'')) \<le> 280
   \<and> length ''Max does it again!'' \<le> 280
   \<and> validate_tweet_length ''Max does it again!'' = ''Max does it again!''
   \<and> (\<exists>post. fst (generate_content_aware_post scenario_config scenario_env (start_world 0)
                      ''Verstappen wins'' ''F1'' ''http://x/1'' None) = Inr post
              \<and> length post \<le> 280)"
  using C3_final_truncation [of "replicate 300 CHR ''a''" scenario_config scenario_env
          "start_world 0" "''Verstappen wins''" "''F1''" "''http://x/1''" None]
        C3_final_truncation [of "''Max does it again!''" scenario_config scenario_env
          "start_world 0" "''Verstappen wins''" "''F1''" "''http://x/1''" None]
  by simp

lemma attempts_loop_last_post_time:
  "attempts_loop e atts w msg = (ok, w') \<Longrightarrow>
     (ok \<longrightarrow> last_post_time w' = Some (clock w'))
     \<and> (\<not> ok \<longrightarrow> last_post_time w' = last_post_time w)"
proof (induction atts arbitrary: w msg)
  case Nil
  then show ?case by auto
next
  case (Cons attempt rest)
  show ?case
  proof (cases "tweet_reply e (length (trace w)) (validate_tweet_length msg)")
    case (Inr u)
    with Cons.prems show ?thesis by (auto simp: Let_def emit_simps)
  next
    case (Inl ex)
    obtain error_msg where ex: "ex = Exception error_msg" by (cases ex)
    let ?w1 = "emit e (Tweet (validate_tweet_length msg)) w"
    consider (rate) "py_in ''429'' error_msg"
      | (dup) "\<not> py_in ''429'' error_msg" "py_in ''duplicate'' (py_lower error_msg)"
      | (final) "\<not> py_in ''429'' error_msg" "\<not> py_in ''duplicate'' (py_lower error_msg)"
          "attempt = retries - 1"
      | (retry) "\<not> py_in ''429'' error_msg" "\<not> py_in ''duplicate'' (py_lower error_msg)"
          "attempt \<noteq> retries - 1"
      by blast
    then show ?thesis
    proof cases
      case rate
      with Cons.prems Inl ex
      have "attempts_loop e rest (sleep e (15 * 60) ?w1) (validate_tweet_length msg) = (ok, w')"
        by (simp add: Let_def)
      from Cons.IH [OF this] show ?thesis by (simp add: sleep_simps emit_simps)
    next
      case dup
      with Cons.prems Inl ex show ?thesis by (auto simp: Let_def emit_simps)
    next
      case final
      with Cons.prems Inl ex show ?thesis by (auto simp: Let_def emit_simps)
    next
      case retry
      with Cons.prems Inl ex
      have "attempts_loop e rest (sleep e 30 ?w1) (validate_tweet_length msg) = (ok, w')"
        by (simp add: Let_def)
      from Cons.IH [OF this] show ?thesis by (simp add: sleep_simps emit_simps)
    qed
  qed
qed

lemma post_tweet_last_post_time:
  assumes "post_tweet e w text category = (ok, w')"
  shows "(ok \<longrightarrow> last_post_time w' = Some (clock w'))
         \<and> (\<not> ok \<longrightarrow> last_post_time w' = last_post_time w)"
proof (cases "can_post_now w")
  case True
  with assms have "attempts_loop e [0..<retries] w text = (ok, w')"
    by (simp add: post_tweet_def)
  then show ?thesis by (rule attempts_loop_last_post_time)
next
  case False
  with assms show ?thesis by (auto simp: post_tweet_def)
qed

text \<open>
  Claim C6. \<open>can_post_now\<close> holds exactly when \<open>last_post_time\<close> is unset or at
  least 120 minutes lie between it and the clock. \<open>last_post_time\<close> is written by a
  successful \<open>post_tweet\<close> only (a failed one leaves it as it was), so it is unset
  until the first success; after a success the gate is closed one minute later and open
  121 minutes later.
\<close>

theorem C6_can_publish_interval:
  "(can_post_now w \<longleftrightarrow>
      (last_post_time w = None
       \<or> (\<exists>t. last_post_time w = Some t \<and> clock w - t \<ge> microseconds (120 * 60))))
   \<and> (post_tweet e w text category = (False, w') \<longrightarrow> last_post_time w' = last_post_time w)
   \<and> (post_tweet e w text category = (True, w') \<longrightarrow>
        last_post_time w' = Some (clock w')
        \<and> \<not> can_post_now (w'\<lparr>clock := clock w' + microseconds (1 * 60)\<rparr>)
        \<and> can_post_now (w'\<lparr>clock := clock w' + microseconds (121 * 60)\<rparr>))"
proof (intro conjI impI)
  show "can_post_now w \<longleftrightarrow>
      (last_post_time w = None
       \<or> (\<exists>t. last_post_time w = Some t \<and> clock w - t \<ge> microseconds (120 * 60)))"
    by (cases "last_post_time w") (simp_all add: can_post_now_def POST_INTERVAL_MINUTES_def)
next
  assume "post_tweet e w text category = (False, w')"
  from post_tweet_last_post_time [OF this] show "last_post_time w' = last_post_time w" by simp
next
  assume "post_tweet e w text category = (True, w')"
  from post_tweet_last_post_time [OF this] show l: "last_post_time w' = Some (clock w')" by simp
  show "\<not> can_post_now (w'\<lparr>clock := clock w' + microseconds (1 * 60)\<rparr>)"
    by (simp add: can_post_now_def l POST_INTERVAL_MINUTES_def microseconds_def)
  show "can_post_now (w'\<lparr>clock := clock w' + microseconds (121 * 60)\<rparr>)"
    by (simp add: can_post_now_def l POST_INTERVAL_MINUTES_def microseconds_def)
qed

text \<open>
  Claim C10. While less than the minimum interval has passed since the last successful
  publish, \<open>post_tweet\<close> returns \<^verbatim>\<open>False\<close> and the state is the one it started
  from: no event is added to the trace (no publish attempt, no sleep), and the clock,
  \<open>last_post_time\<close> and both logs are unchanged.
\<close>

theorem C10_gate_closed_no_attempt:
  assumes "last_post_time w = Some t"
    and "clock w - t < microseconds (POST_INTERVAL_MINUTES * 60)"
  shows "post_tweet e w text category = (False, w)"
  using assms by (simp add: post_tweet_def can_post_now_def)

lemma range_retries: "[0..<retries] = [0, 1, 2]"
  by (simp add: retries_def upt_conv_Cons)

lemma scenario_post_tweet:
  "post_tweet scenario_env (start_world 0) ''Max does it again!'' (Some ''F1'')
   = (True, \<lparr>clock = 0, last_post_time = Some 0, POSTED_LOG = None, CONTENT_HASH_LOG = None,
             trace = [Tweet ''Max does it again!'']\<rparr>)"
  by (simp add: post_tweet_def can_post_now_def start_world_def range_retries scenario_env_def
      Let_def validate_tweet_length_def emit_def)

lemma just_posted_post_tweet:
  "post_tweet scenario_env just_posted_world ''Max does it again!'' (Some ''F1'')
   = (False, just_posted_world)"
  by (simp add: post_tweet_def can_post_now_def just_posted_world_def POST_INTERVAL_MINUTES_def
      microseconds_def)

text \<open>
  A failed publish one minute after an earlier one, and the first successful publish of
  a process.
\<close>

theorem C6_can_publish_interval_witness:
  "post_tweet scenario_env just_posted_world ''Max does it again!'' (Some ''F1'')
     = (False, just_posted_world)
   \<and> last_post_time just_posted_world = Some 0
   \<and> post_tweet scenario_env (start_world 0) ''Max does it again!'' (Some ''F1'')
     = (True, \<lparr>clock = 0, last_post_time = Some 0, POSTED_LOG = None, CONTENT_HASH_LOG = None,
             trace = [Tweet ''Max does it again!'']\<rparr>)
   \<and> \<not> can_post_now \<lparr>clock = microseconds (1 * 60), last_post_time = Some 0, POSTED_LOG = None,
         CONTENT_HASH_LOG = None, trace = [Tweet ''Max does it again!'']\<rparr>
   \<and> can_post_now \<lparr>clock = microseconds (121 * 60), last_post_time = Some 0, POSTED_LOG = None,
         CONTENT_HASH_LOG = None, trace = [Tweet ''Max does it again!'']\<rparr>"
  using C6_can_publish_interval [of just_posted_world scenario_env "''Max does it again!''"
          "Some ''F1''" just_posted_world]
        C6_can_publish_interval [of "start_world 0" scenario_env "''Max does it again!''"
          "Some ''F1''" "\<lparr>clock = 0, last_post_time = Some 0, POSTED_LOG = None,
             CONTENT_HASH_LOG = None, trace = [Tweet ''Max does it again!'']\<rparr>"]
        scenario_post_tweet just_posted_post_tweet
  by (simp add: just_posted_world_def)

text \<open>
  One minute after a publish.
\<close>

theorem C10_gate_closed_no_attempt_witness:
  "last_post_time just_posted_world = Some 0
   \<and> clock just_posted_world - 0 < microseconds (POST_INTERVAL_MINUTES * 60)
   \<and> post_tweet scenario_env just_posted_world ''Max does it again!'' (Some ''F1'')
       = (False, just_posted_world)"
proof -
  have a: "last_post_time just_posted_world = Some 0" by (simp add: just_posted_world_def)
  have b: "clock just_posted_world - 0 < microseconds (POST_INTERVAL_MINUTES * 60)"
    by (simp add: just_posted_world_def POST_INTERVAL_MINUTES_def microseconds_def)
  from C10_gate_closed_no_attempt [OF a b] a b show ?thesis by blast
qed

lemma datetime_new_year: "datetime_utc (take 6 [2024, 1, 1, 12, 0, 0, 0, 1, 0]) = Some 63839793600000000"
  by code_simp

text \<open>
  Claim C8. An article without \<^verbatim>\<open>published_parsed\<close> is fresh whatever the clock
  says; so is one whose time tuple \<^verbatim>\<open>datetime\<close> rejects. Otherwise the article is fresh
  exactly when its age is at most 24 hours: fresh at 23 hours, not fresh at 25.
\<close>

theorem C8_is_fresh:
  "(published_parsed a = None \<longrightarrow> is_fresh w a)
   \<and> (published_parsed a = Some pub_date \<and> datetime_utc (take 6 pub_date) = None
        \<longrightarrow> is_fresh w a)
   \<and> (published_parsed a = Some pub_date \<and> datetime_utc (take 6 pub_date) = Some dt \<longrightarrow>
        (is_fresh w a \<longleftrightarrow> clock w - dt \<le> microseconds (24 * 3600))
        \<and> (clock w = dt + microseconds (23 * 3600) \<longrightarrow> is_fresh w a)
        \<and> (clock w = dt + microseconds (25 * 3600) \<longrightarrow> \<not> is_fresh w a))"
proof -
  have empty: "datetime_utc [] = None" by (simp add: datetime_utc_def)
  show ?thesis
    by (cases "published_parsed a")
       (auto simp: is_fresh_def FRESHNESS_WINDOW_def microseconds_def empty)
qed

lemma datetime_february_30: "datetime_utc (take 6 [2024, 2, 30, 12, 0, 0, 0, 1, 0]) = None"
  by code_simp

text \<open>
  An article without a date, one dated 30 February, and one dated 1 January 2024, noon,
  read 23 and 25 hours later.
\<close>

theorem C8_is_fresh_witness:
  "published_parsed undated_article = None
   \<and> is_fresh (start_world 0) undated_article
   \<and> published_parsed misdated_article = Some [2024, 2, 30, 12, 0, 0, 0, 1, 0]
   \<and> datetime_utc (take 6 [2024, 2, 30, 12, 0, 0, 0, 1, 0]) = None
   \<and> is_fresh (start_world 0) misdated_article
   \<and> published_parsed new_year_article = Some [2024, 1, 1, 12, 0, 0, 0, 1, 0]
   \<and> datetime_utc (take 6 [2024, 1, 1, 12, 0, 0, 0, 1, 0]) = Some 63839793600000000
   \<and> is_fresh (start_world (63839793600000000 + microseconds (23 * 3600))) new_year_article
   \<and> \<not> is_fresh (start_world (63839793600000000 + microseconds (25 * 3600))) new_year_article"
  using C8_is_fresh [where a = undated_article and w = "start_world 0"]
        C8_is_fresh [where a = misdated_article and w = "start_world 0"
          and pub_date = "[2024, 2, 30, 12, 0, 0, 0, 1, 0]"]
        C8_is_fresh [where a = new_year_article
          and w = "start_world (63839793600000000 + microseconds (23 * 3600))"
          and pub_date = "[2024, 1, 1, 12, 0, 0, 0, 1, 0]" and dt = 63839793600000000]
        C8_is_fresh [where a = new_year_article
          and w = "start_world (63839793600000000 + microseconds (25 * 3600))"
          and pub_date = "[2024, 1, 1, 12, 0, 0, 0, 1, 0]" and dt = 63839793600000000]
        datetime_new_year datetime_february_30
  by (simp add: undated_article_def misdated_article_def new_year_article_def start_world_def
      microseconds_def)

section \<open>The fallback message\<close>





lemma scenario_fallback_tweet:
  "fst (fallback_tweet scenario_config scenario_env (start_world 0) ''F1'') =
     Inr ''Formula 1: where even the safety car has a fanbase. #F1 #Formula1''"
  by (simp add: fallback_tweet_def scenario_config_def scenario_env_def start_world_def
      random_choice_def random_sample_def dict_get_def emit_def Let_def validate_tweet_length_def)

section \<open>Publishing with retries\<close>

lemma validate_tweet_length_idem:
  "validate_tweet_length (validate_tweet_length msg) = validate_tweet_length msg"
  by (simp add: validate_tweet_length_def)

lemma attempts_loop_validated:
  "attempts_loop e atts w (validate_tweet_length msg) = attempts_loop e atts w msg"
  by (cases atts) (simp_all add: validate_tweet_length_idem Let_def)

lemma attempts_loop_trace:
  "attempts_loop e atts w msg = (ok, w') \<Longrightarrow>
     \<exists>evs. trace w' = trace w @ evs
           \<and> length (filter is_tweet evs) \<le> length atts
           \<and> set evs \<subseteq> {Tweet (validate_tweet_length msg), Sleep (15 * 60), Sleep 30}"
proof (induction atts arbitrary: w msg)
  case Nil
  then show ?case by auto
next
  case (Cons attempt rest)
  let ?t = "validate_tweet_length msg"
  let ?w1 = "emit e (Tweet ?t) w"
  have stop: "w' = ?w1 \<or> w' = ?w1\<lparr>last_post_time := Some (clock ?w1)\<rparr> \<Longrightarrow> ?case"
    by (intro exI [of _ "[Tweet ?t]"]) (auto simp: emit_simps)
  have continue: ?case
    if "attempts_loop e rest (sleep e secs ?w1) ?t = (ok, w')" and "secs = 15 * 60 \<or> secs = 30"
    for secs
  proof -
    from Cons.IH [OF that(1)] obtain evs where
      evs: "trace w' = trace (sleep e secs ?w1) @ evs"
        "length (filter is_tweet evs) \<le> length rest"
        "set evs \<subseteq> {Tweet ?t, Sleep (15 * 60), Sleep 30}"
      by (auto simp: validate_tweet_length_idem)
    show ?thesis
      using evs that(2)
      by (intro exI [of _ "Tweet ?t # Sleep secs # evs"]) (auto simp: sleep_simps emit_simps)
  qed
  show ?case
  proof (cases "tweet_reply e (length (trace w)) ?t")
    case (Inr u)
    with Cons.prems show ?thesis by (intro stop) (auto simp: Let_def)
  next
    case (Inl ex)
    obtain error_msg where ex: "ex = Exception error_msg" by (cases ex)
    consider (rate) "py_in ''429'' error_msg"
      | (dup) "\<not> py_in ''429'' error_msg" "py_in ''duplicate'' (py_lower error_msg)"
      | (final) "\<not> py_in ''429'' error_msg" "\<not> py_in ''duplicate'' (py_lower error_msg)"
          "attempt = retries - 1"
      | (retry) "\<not> py_in ''429'' error_msg" "\<not> py_in ''duplicate'' (py_lower error_msg)"
          "attempt \<noteq> retries - 1"
      by blast
    then show ?thesis
    proof cases
      case rate
      with Cons.prems Inl ex
      have "attempts_loop e rest (sleep e (15 * 60) ?w1) ?t = (ok, w')" by (simp add: Let_def)
      then show ?thesis by (rule continue) simp
    next
      case dup
      with Cons.prems Inl ex show ?thesis by (intro stop) (auto simp: Let_def)
    next
      case final
      with Cons.prems Inl ex show ?thesis by (intro stop) (auto simp: Let_def)
    next
      case retry
      with Cons.prems Inl ex
      have "attempts_loop e rest (sleep e 30 ?w1) ?t = (ok, w')" by (simp add: Let_def)
      then show ?thesis by (rule continue) simp
    qed
  qed
qed

lemma post_tweet_trace:
  "\<exists>evs. trace (snd (post_tweet e w msg category)) = trace w @ evs
         \<and> length (filter is_tweet evs) \<le> 3
         \<and> set evs \<subseteq> {Tweet (validate_tweet_length msg), Sleep (15 * 60), Sleep 30}"
proof (cases "can_post_now w")
  case True
  obtain ok w' where r: "attempts_loop e [0..<retries] w msg = (ok, w')"
    by (cases "attempts_loop e [0..<retries] w msg")
  from attempts_loop_trace [OF r] True r show ?thesis
    by (simp add: post_tweet_def retries_def)
next
  case False
  then show ?thesis by (simp add: post_tweet_def)
qed

lemma upt_retries_Cons: "k < 3 \<Longrightarrow> [k..<retries] = k # [Suc k..<retries]"
  by (simp add: retries_def upt_conv_Cons)

lemma attempts_loop_step:
  assumes "k < retries"
  shows "attempts_loop e [k..<retries] w msg =
     (case tweet_reply e (length (trace w)) (validate_tweet_length msg) of
        Inr ok \<Rightarrow>
          (True, (emit e (Tweet (validate_tweet_length msg)) w)
                   \<lparr>last_post_time := Some (clock (emit e (Tweet (validate_tweet_length msg)) w))\<rparr>)
      | Inl (Exception error_msg) \<Rightarrow>
          if py_in ''429'' error_msg
          then attempts_loop e [Suc k..<retries]
                 (sleep e (15 * 60) (emit e (Tweet (validate_tweet_length msg)) w)) msg
          else if py_in ''duplicate'' (py_lower error_msg)
          then (False, emit e (Tweet (validate_tweet_length msg)) w)
          else if Suc k = retries then (False, emit e (Tweet (validate_tweet_length msg)) w)
          else attempts_loop e [Suc k..<retries]
                 (sleep e 30 (emit e (Tweet (validate_tweet_length msg)) w)) msg)"
proof -
  from assms have u: "[k..<retries] = k # [Suc k..<retries]" by (simp add: upt_conv_Cons)
  from assms have f: "(k = retries - Suc 0) = (Suc k = retries)" by auto
  show ?thesis
    unfolding u
    by (simp add: Let_def attempts_loop_validated f split: sum.split py_error.split)
qed

text \<open>
  Claim C5. \<open>post_tweet\<close> with an open gate runs the loop over the three attempts
  \<open>0, 1, 2\<close>. Whatever the publisher answers, it calls \<open>create_tweet\<close> at most three
  times, and does nothing else but sleep 15 minutes or 30 seconds. A successful run leaves
  \<open>last_post_time\<close> at the clock's value, a failed one leaves it as it was. At attempt
  \<open>k\<close>, in the state \<open>w\<close>:
  \<^item> success returns \<^verbatim>\<open>True\<close> and sets \<open>last_post_time\<close>;
  \<^item> an error whose text contains \<^verbatim>\<open>429\<close> sleeps 15 minutes and goes on with attempt
    \<open>k + 1\<close> (after the third attempt the loop is over and the result is \<^verbatim>\<open>False\<close>);
  \<^item> any other error whose lower-cased text contains \<^verbatim>\<open>duplicate\<close> returns
    \<^verbatim>\<open>False\<close> at once: no sleep, no further attempt;
  \<^item> any other error returns \<^verbatim>\<open>False\<close> at the third attempt, and before that sleeps 30
    seconds and goes on with attempt \<open>k + 1\<close>.
\<close>

theorem C5_post_tweet_retries:
  "retries = 3
   \<and> (can_post_now w \<longrightarrow> post_tweet e w msg category = attempts_loop e [0..<retries] w msg)
   \<and> (\<exists>evs. trace (snd (post_tweet e w msg category)) = trace w @ evs
         \<and> length (filter is_tweet evs) \<le> 3
         \<and> set evs \<subseteq> {Tweet (validate_tweet_length msg), Sleep (15 * 60), Sleep 30})
   \<and> (fst (post_tweet e w msg category) \<longrightarrow>
        last_post_time (snd (post_tweet e w msg category))
          = Some (clock (snd (post_tweet e w msg category))))
   \<and> (\<not> fst (post_tweet e w msg category) \<longrightarrow>
        last_post_time (snd (post_tweet e w msg category)) = last_post_time w)
   \<and> attempts_loop e [retries..<retries] w msg = (False, w)
   \<and> (k < retries \<and> tweet_reply e (length (trace w)) (validate_tweet_length msg) = Inr () \<longrightarrow>
        attempts_loop e [k..<retries] w msg =
          (True, (emit e (Tweet (validate_tweet_length msg)) w)
                   \<lparr>last_post_time := Some (clock (emit e (Tweet (validate_tweet_length msg)) w))\<rparr>))
   \<and> (k < retries
        \<and> tweet_reply e (length (trace w)) (validate_tweet_length msg) = Inl (Exception error_msg)
        \<and> py_in ''429'' error_msg \<longrightarrow>
        attempts_loop e [k..<retries] w msg =
          attempts_loop e [Suc k..<retries]
            (sleep e (15 * 60) (emit e (Tweet (validate_tweet_length msg)) w)) msg)
   \<and> (k < retries
        \<and> tweet_reply e (length (trace w)) (validate_tweet_length msg) = Inl (Exception error_msg)
        \<and> \<not> py_in ''429'' error_msg \<and> py_in ''duplicate'' (py_lower error_msg) \<longrightarrow>
        attempts_loop e [k..<retries] w msg = (False, emit e (Tweet (validate_tweet_length msg)) w))
   \<and> (k < retries
        \<and> tweet_reply e (length (trace w)) (validate_tweet_length msg) = Inl (Exception error_msg)
        \<and> \<not> py_in ''429'' error_msg \<and> \<not> py_in ''duplicate'' (py_lower error_msg) \<longrightarrow>
        attempts_loop e [k..<retries] w msg =
          (if Suc k = retries then (False, emit e (Tweet (validate_tweet_length msg)) w)
           else attempts_loop e [Suc k..<retries]
                  (sleep e 30 (emit e (Tweet (validate_tweet_length msg)) w)) msg))"
proof -
  obtain ok w' where r: "post_tweet e w msg category = (ok, w')"
    by (cases "post_tweet e w msg category")
  note l = post_tweet_last_post_time [OF r]
  have a: "retries = 3" by (simp add: retries_def)
  have b: "can_post_now w \<longrightarrow> post_tweet e w msg category = attempts_loop e [0..<retries] w msg"
    by (simp add: post_tweet_def)
  note c = post_tweet_trace [of e w msg category]
  have d: "fst (post_tweet e w msg category) \<longrightarrow>
        last_post_time (snd (post_tweet e w msg category))
          = Some (clock (snd (post_tweet e w msg category)))"
    using l by (simp add: r)
  have d': "\<not> fst (post_tweet e w msg category) \<longrightarrow>
        last_post_time (snd (post_tweet e w msg category)) = last_post_time w"
    using l by (simp add: r)
  have f: "attempts_loop e [retries..<retries] w msg = (False, w)" by simp
  show ?thesis
    using a b c d d' f by (simp add: attempts_loop_step)
qed

lemma validate_hi: "validate_tweet_length ''hi'' = ''hi''"
  by (simp add: validate_tweet_length_def)

lemma lower_duplicate_message:
  "py_lower ''403 Forbidden: Duplicate content'' = ''403 forbidden: duplicate content''"
  by (simp add: py_lower_def py_lower_char_def)

lemma lower_unavailable_message:
  "py_lower ''503 Service Unavailable'' = ''503 service unavailable''"
  by (simp add: py_lower_def py_lower_char_def)

text \<open>
  A publisher that is rate-limited, one that reports a duplicate, one that always fails
  and one that accepts the post.
\<close>

theorem C5_post_tweet_retries_witness:
  "can_post_now (start_world 0)
   \<and> post_tweet flaky_env (start_world 0) ''hi'' None
       = attempts_loop flaky_env [0..<retries] (start_world 0) ''hi''
   \<and> (0::nat) < retries
   \<and> tweet_reply flaky_env (length (trace (start_world 0))) ''hi''
       = Inl (Exception ''429 Too Many Requests'')
   \<and> py_in ''429'' ''429 Too Many Requests''
   \<and> attempts_loop flaky_env [0..<retries] (start_world 0) ''hi''
       = attempts_loop flaky_env [Suc 0..<retries]
           (sleep flaky_env (15 * 60) (emit flaky_env (Tweet ''hi'') (start_world 0))) ''hi''
   \<and> tweet_reply duplicate_env (length (trace (start_world 0))) ''hi''
       = Inl (Exception ''403 Forbidden: Duplicate content'')
   \<and> \<not> py_in ''429'' ''403 Forbidden: Duplicate content''
   \<and> py_in ''duplicate'' (py_lower ''403 Forbidden: Duplicate content'')
   \<and> attempts_loop duplicate_env [0..<retries] (start_world 0) ''hi''
       = (False, emit duplicate_env (Tweet ''hi'') (start_world 0))
   \<and> tweet_reply failing_env (length (trace (start_world 0))) ''hi''
       = Inl (Exception ''503 Service Unavailable'')
   \<and> \<not> py_in ''429'' ''503 Service Unavailable''
   \<and> \<not> py_in ''duplicate'' (py_lower ''503 Service Unavailable'')
   \<and> attempts_loop failing_env [0..<retries] (start_world 0) ''hi''
       = attempts_loop failing_env [Suc 0..<retries]
           (sleep failing_env 30 (emit failing_env (Tweet ''hi'') (start_world 0))) ''hi''
   \<and> attempts_loop failing_env [2..<retries] (start_world 0) ''hi''
       = (False, emit failing_env (Tweet ''hi'') (start_world 0))
   \<and> tweet_reply scenario_env (length (trace (start_world 0))) ''hi'' = Inr ()
   \<and> attempts_loop scenario_env [0..<retries] (start_world 0) ''hi''
       = (True, (emit scenario_env (Tweet ''hi'') (start_world 0))
                  \<lparr>last_post_time := Some (clock (emit scenario_env (Tweet ''hi'') (start_world 0)))\<rparr>)
   \<and> fst (post_tweet scenario_env (start_world 0) ''hi'' None)
   \<and> last_post_time (snd (post_tweet scenario_env (start_world 0) ''hi'' None))
       = Some (clock (snd (post_tweet scenario_env (start_world 0) ''hi'' None)))
   \<and> \<not> fst (post_tweet duplicate_env (start_world 0) ''hi'' None)
   \<and> last_post_time (snd (post_tweet duplicate_env (start_world 0) ''hi'' None))
       = last_post_time (start_world 0)"
proof -
  have g: "can_post_now (start_world 0)" by (simp add: can_post_now_def start_world_def)
  have k0: "(0::nat) < retries" and k2: "(2::nat) < retries" and s2: "Suc 2 = retries"
    and s0: "Suc 0 \<noteq> retries"
    by (simp_all add: retries_def)
  have n: "length (trace (start_world 0)) = 0" by (simp add: start_world_def)
  have r1: "tweet_reply flaky_env 0 ''hi'' = Inl (Exception ''429 Too Many Requests'')"
    by (simp add: flaky_env_def)
  have r2: "tweet_reply duplicate_env 0 ''hi'' = Inl (Exception ''403 Forbidden: Duplicate content'')"
    by (simp add: duplicate_env_def)
  have r3: "tweet_reply failing_env 0 ''hi'' = Inl (Exception ''503 Service Unavailable'')"
    by (simp add: failing_env_def)
  have r4: "tweet_reply scenario_env 0 ''hi'' = Inr ()"
    by (simp add: scenario_env_def)
  have p1: "py_in ''429'' ''429 Too Many Requests''" by simp
  have p2: "\<not> py_in ''429'' ''403 Forbidden: Duplicate content''" by simp
  have p3: "py_in ''duplicate'' (py_lower ''403 Forbidden: Duplicate content'')"
    unfolding lower_duplicate_message by simp
  have p4: "\<not> py_in ''429'' ''503 Service Unavailable''" by simp
  have p5: "\<not> py_in ''duplicate'' (py_lower ''503 Service Unavailable'')"
    unfolding lower_unavailable_message by simp
  note flaky = C5_post_tweet_retries [where e = flaky_env and w = "start_world 0"
      and msg = "''hi''" and category = None and k = 0
      and error_msg = "''429 Too Many Requests''", unfolded validate_hi n]
  note dup = C5_post_tweet_retries [where e = duplicate_env and w = "start_world 0"
      and msg = "''hi''" and category = None and k = 0
      and error_msg = "''403 Forbidden: Duplicate content''", unfolded validate_hi n]
  note fail0 = C5_post_tweet_retries [where e = failing_env and w = "start_world 0"
      and msg = "''hi''" and category = None and k = 0
      and error_msg = "''503 Service Unavailable''", unfolded validate_hi n]
  note fail2 = C5_post_tweet_retries [where e = failing_env and w = "start_world 0"
      and msg = "''hi''" and category = None and k = 2
      and error_msg = "''503 Service Unavailable''", unfolded validate_hi n]
  note good = C5_post_tweet_retries [where e = scenario_env and w = "start_world 0"
      and msg = "''hi''" and category = None and k = 0 and error_msg = "[]",
      unfolded validate_hi n]
  from flaky g have c1: "post_tweet flaky_env (start_world 0) ''hi'' None
       = attempts_loop flaky_env [0..<retries] (start_world 0) ''hi''"
    by blast
  from flaky k0 r1 p1 have c2: "attempts_loop flaky_env [0..<retries] (start_world 0) ''hi''
       = attempts_loop flaky_env [Suc 0..<retries]
           (sleep flaky_env (15 * 60) (emit flaky_env (Tweet ''hi'') (start_world 0))) ''hi''"
    by blast
  from dup k0 r2 p2 p3 have c3: "attempts_loop duplicate_env [0..<retries] (start_world 0) ''hi''
       = (False, emit duplicate_env (Tweet ''hi'') (start_world 0))"
    by blast
  from fail0 k0 r3 p4 p5 s0 have c4: "attempts_loop failing_env [0..<retries] (start_world 0) ''hi''
       = attempts_loop failing_env [Suc 0..<retries]
           (sleep failing_env 30 (emit failing_env (Tweet ''hi'') (start_world 0))) ''hi''"
    by simp
  from fail2 k2 r3 p4 p5 s2 have c5: "attempts_loop failing_env [2..<retries] (start_world 0) ''hi''
       = (False, emit failing_env (Tweet ''hi'') (start_world 0))"
    by simp
  from good k0 r4 have c6: "attempts_loop scenario_env [0..<retries] (start_world 0) ''hi''
       = (True, (emit scenario_env (Tweet ''hi'') (start_world 0))
                  \<lparr>last_post_time := Some (clock (emit scenario_env (Tweet ''hi'') (start_world 0)))\<rparr>)"
    by blast
  from good g c6 have c7: "fst (post_tweet scenario_env (start_world 0) ''hi'' None)"
    by simp
  from good c7 have c8: "last_post_time (snd (post_tweet scenario_env (start_world 0) ''hi'' None))
       = Some (clock (snd (post_tweet scenario_env (start_world 0) ''hi'' None)))"
    by blast
  from dup g c3 have c9: "\<not> fst (post_tweet duplicate_env (start_world 0) ''hi'' None)"
    by simp
  from dup c9 have c10: "last_post_time (snd (post_tweet duplicate_env (start_world 0) ''hi'' None))
       = last_post_time (start_world 0)"
    by blast
  show ?thesis
    unfolding n
    using g c1 k0 r1 p1 c2 r2 p2 p3 c3 r3 p4 p5 c4 c5 r4 c6 c7 c8 c9 c10
    by (intro conjI)
qed

section \<open>Collecting the articles of a category: what is fetched\<close>

lemma fetch_rss_eq:
  "fetch_rss e w feed_url = (fetch_result e (length (trace w)) feed_url, emit e (Fetch feed_url) w)"
  by (simp add: fetch_rss_def fetch_result_def split: sum.split)

lemma first_nonempty_Cons:
  "first_nonempty (r # rs) = (if r = [] then first_nonempty rs else r)"
  by (simp add: first_nonempty_def)

lemma leading_empty_Cons:
  "leading_empty (r # rs) = (if r = [] then Suc (leading_empty rs) else 0)"
  by (simp add: leading_empty_def)

lemma first_nonempty_Nil [simp]: "first_nonempty [] = []"
  by (simp add: first_nonempty_def)

lemma leading_empty_Nil [simp]: "leading_empty [] = 0"
  by (simp add: leading_empty_def)

lemma all_empty_leading:
  "first_nonempty rs = [] \<Longrightarrow> leading_empty rs = length rs"
  by (induction rs) (simp_all add: first_nonempty_Cons leading_empty_Cons split: if_splits)

lemma length_pass_results [simp]: "length (pass_results e n feeds) = length feeds"
  by (induction feeds arbitrary: n) simp_all

lemma length_fallback_passes [simp]: "length (fallback_passes e n feeds alts) = length alts"
  by (induction alts arbitrary: n) simp_all

lemma feeds_loop_result:
  "feeds_loop e feeds [] w = (articles, w') \<Longrightarrow>
     articles = first_nonempty (pass_results e (length (trace w)) feeds)
     \<and> trace w' = trace w
          @ map Fetch (take (Suc (leading_empty (pass_results e (length (trace w)) feeds))) feeds)"
proof (induction feeds arbitrary: w)
  case Nil
  then show ?case by simp
next
  case (Cons feed feeds)
  show ?case
  proof (cases "fetch_result e (length (trace w)) feed = []")
    case True
    with Cons.prems
    have "feeds_loop e feeds [] (emit e (Fetch feed) w) = (articles, w')"
      by (simp add: fetch_rss_eq)
    from Cons.IH [OF this] True show ?thesis
      by (simp add: emit_simps first_nonempty_Cons leading_empty_Cons)
  next
    case False
    with Cons.prems show ?thesis
      by (auto simp: fetch_rss_eq emit_simps first_nonempty_Cons leading_empty_Cons)
  qed
qed

lemma refetch_loop_result:
  "refetch_loop e feeds acc w = (articles, w') \<Longrightarrow>
     articles = acc @ concat (pass_results e (length (trace w)) feeds)
     \<and> trace w' = trace w @ map Fetch feeds"
proof (induction feeds arbitrary: w acc)
  case Nil
  then show ?case by simp
next
  case (Cons feed feeds)
  from Cons.prems
  have "refetch_loop e feeds (acc @ fetch_result e (length (trace w)) feed)
          (emit e (Fetch feed) w) = (articles, w')"
    by (simp add: fetch_rss_eq)
  from Cons.IH [OF this] show ?case by (simp add: emit_simps)
qed

lemma keywords_loop_result:
  "keywords_loop e alts feeds [] w = (articles, w') \<Longrightarrow>
     articles = first_nonempty (fallback_passes e (length (trace w)) feeds alts)
     \<and> trace w' = trace w
          @ concat (replicate
              (min (Suc (leading_empty (fallback_passes e (length (trace w)) feeds alts)))
                 (length alts))
              (map Fetch feeds))"
proof (induction alts arbitrary: w)
  case Nil
  then show ?case by simp
next
  case (Cons alt alts)
  obtain articles1 w1 where r: "refetch_loop e feeds [] w = (articles1, w1)"
    by (cases "refetch_loop e feeds [] w")
  from refetch_loop_result [OF r]
  have a1: "articles1 = concat (pass_results e (length (trace w)) feeds)"
    and t1: "trace w1 = trace w @ map Fetch feeds"
    by simp_all
  show ?case
  proof (cases "articles1 = []")
    case True
    with Cons.prems r have "keywords_loop e alts feeds [] w1 = (articles, w')" by simp
    from Cons.IH [OF this] True t1 show ?thesis
      unfolding fallback_passes.simps a1 [symmetric]
      by (simp add: first_nonempty_Cons leading_empty_Cons)
  next
    case False
    with Cons.prems r have "articles = articles1" "w' = w1" by simp_all
    with False t1 show ?thesis
      unfolding fallback_passes.simps a1 [symmetric]
      by (simp add: first_nonempty_Cons leading_empty_Cons)
  qed
qed

text \<open>
  Claim C4, as the code has it. \<open>pass_results e n feeds\<close> lists what each feed answers
  when the feeds are fetched in declaration order from event \<open>n\<close> on;
  \<open>first_nonempty\<close> is the first answer with an article and \<open>leading_empty\<close> counts the
  empty answers before it.
  \<^item> The first pass fetches the feeds in order and stops at the first feed that yields an
    article: the result is that feed's articles alone, and no later feed is fetched.
  \<^item> When every feed of the first pass is empty and the category has no fallback keywords,
    the result is empty.
  \<^item> When every feed of the first pass is empty and the category has fallback keywords,
    each keyword in turn triggers one more pass that fetches \<^emph>\<open>every\<close> feed and keeps
    the articles of all of them (\<open>fallback_passes\<close>); the passes stop after the first
    one that yields an article, and the result is what that pass collected.
\<close>

theorem C4_collect_short_circuit:
  assumes "get_articles_for_category cfg e w category = (articles, w')"
  shows "(first_nonempty (pass_results e (length (trace w)) (dict_get (RSS_FEEDS cfg) category)) \<noteq> []
          \<longrightarrow>
          articles = first_nonempty
                       (pass_results e (length (trace w)) (dict_get (RSS_FEEDS cfg) category))
          \<and> trace w' = trace w @ map Fetch
                (take (Suc (leading_empty
                   (pass_results e (length (trace w)) (dict_get (RSS_FEEDS cfg) category))))
                   (dict_get (RSS_FEEDS cfg) category)))
       \<and> (first_nonempty (pass_results e (length (trace w)) (dict_get (RSS_FEEDS cfg) category)) = []
          \<and> map_of (FALLBACK_KEYWORDS cfg) category = None \<longrightarrow>
          articles = [] \<and> trace w' = trace w @ map Fetch (dict_get (RSS_FEEDS cfg) category))
       \<and> (first_nonempty (pass_results e (length (trace w)) (dict_get (RSS_FEEDS cfg) category)) = []
          \<and> map_of (FALLBACK_KEYWORDS cfg) category = Some alts \<longrightarrow>
          articles = first_nonempty
                       (fallback_passes e
                          (length (trace w) + length (dict_get (RSS_FEEDS cfg) category))
                          (dict_get (RSS_FEEDS cfg) category) alts)
          \<and> trace w' = trace w @ map Fetch (dict_get (RSS_FEEDS cfg) category)
                @ concat (replicate
                    (min (Suc (leading_empty
                       (fallback_passes e
                          (length (trace w) + length (dict_get (RSS_FEEDS cfg) category))
                          (dict_get (RSS_FEEDS cfg) category) alts)))
                       (length alts))
                    (map Fetch (dict_get (RSS_FEEDS cfg) category))))"
proof -
  let ?feeds = "dict_get (RSS_FEEDS cfg) category"
  let ?first = "pass_results e (length (trace w)) ?feeds"
  obtain articles0 w1 where f: "feeds_loop e ?feeds [] w = (articles0, w1)"
    by (cases "feeds_loop e ?feeds [] w")
  from feeds_loop_result [OF f]
  have a0: "articles0 = first_nonempty ?first"
    and t1: "trace w1 = trace w @ map Fetch (take (Suc (leading_empty ?first)) ?feeds)"
    by simp_all
  have full: "trace w1 = trace w @ map Fetch ?feeds" if "first_nonempty ?first = []"
    using t1 all_empty_leading [OF that] by simp
  show ?thesis
  proof (intro conjI impI)
    assume ne: "first_nonempty ?first \<noteq> []"
    with assms f a0 have "articles = articles0 \<and> w' = w1"
      by (simp add: get_articles_for_category_def Let_def split: option.splits)
    with a0 t1 show "articles = first_nonempty ?first"
      and "trace w' = trace w @ map Fetch (take (Suc (leading_empty ?first)) ?feeds)"
      by simp_all
  next
    assume h: "first_nonempty ?first = [] \<and> map_of (FALLBACK_KEYWORDS cfg) category = None"
    with assms f a0 have "articles = articles0 \<and> w' = w1"
      by (simp add: get_articles_for_category_def Let_def)
    with a0 h full show "articles = []" and "trace w' = trace w @ map Fetch ?feeds"
      by simp_all
  next
    assume h: "first_nonempty ?first = [] \<and> map_of (FALLBACK_KEYWORDS cfg) category = Some alts"
    with assms f a0 have k: "keywords_loop e alts ?feeds [] w1 = (articles, w')"
      by (simp add: get_articles_for_category_def Let_def)
    have n1: "length (trace w1) = length (trace w) + length ?feeds"
      using full h by simp
    from keywords_loop_result [OF k] full h
    show "articles = first_nonempty
                       (fallback_passes e (length (trace w) + length ?feeds) ?feeds alts)"
      and "trace w' = trace w @ map Fetch ?feeds
                @ concat (replicate
                    (min (Suc (leading_empty
                       (fallback_passes e (length (trace w) + length ?feeds) ?feeds alts)))
                       (length alts))
                    (map Fetch ?feeds))"
      by (simp_all add: n1)
  qed
qed

lemma late_feeds_run:
  "get_articles_for_category two_feeds_config late_feeds_env (start_world 0) ''F1''
   = ([\<lparr>title = ''Verstappen wins'', url = ''http://x/1'', published_parsed = None\<rparr>,
       \<lparr>title = ''Norris on pole'', url = ''http://y/1'', published_parsed = None\<rparr>],
      \<lparr>clock = 0, last_post_time = None, POSTED_LOG = None, CONTENT_HASH_LOG = None,
       trace = [Fetch ''https://www.formula1.com/en/latest/all-news.rss'',
                Fetch ''https://www.autosport.com/rss/f1/news/'',
                Fetch ''https://www.formula1.com/en/latest/all-news.rss'',
                Fetch ''https://www.autosport.com/rss/f1/news/'']\<rparr>)"
  by (simp add: get_articles_for_category_def two_feeds_config_def scenario_config_def
      late_feeds_env_def scenario_env_def start_world_def dict_get_def fetch_rss_def emit_def)

text \<open>
  Claim C4 as stated fails: in a fallback pass the first feed yields an article, and the
  second feed is fetched all the same; the result holds the articles of both.
\<close>

theorem C4_fallback_pass_queries_every_feed:
  "fetch_result late_feeds_env 2 ''https://www.formula1.com/en/latest/all-news.rss'' \<noteq> []
   \<and> get_articles_for_category two_feeds_config late_feeds_env (start_world 0) ''F1''
   = ([\<lparr>title = ''Verstappen wins'', url = ''http://x/1'', published_parsed = None\<rparr>,
       \<lparr>title = ''Norris on pole'', url = ''http://y/1'', published_parsed = None\<rparr>],
      \<lparr>clock = 0, last_post_time = None, POSTED_LOG = None, CONTENT_HASH_LOG = None,
       trace = [Fetch ''https://www.formula1.com/en/latest/all-news.rss'',
                Fetch ''https://www.autosport.com/rss/f1/news/'',
                Fetch ''https://www.formula1.com/en/latest/all-news.rss'',
                Fetch ''https://www.autosport.com/rss/f1/news/'']\<rparr>)"
  using late_feeds_run by (simp add: fetch_result_def late_feeds_env_def)

lemma late_feeds_first_pass:
  "first_nonempty (pass_results late_feeds_env (length (trace (start_world 0))) (dict_get (RSS_FEEDS two_feeds_config) ''F1'')) = []"
  by (simp add: two_feeds_config_def scenario_config_def dict_get_def start_world_def
      fetch_result_def late_feeds_env_def first_nonempty_Cons)

lemma late_feeds_keywords:
  "map_of (FALLBACK_KEYWORDS two_feeds_config) ''F1'' = Some [''Formula 1'', ''Grand Prix'', ''Motorsport'']"
  by (simp add: two_feeds_config_def scenario_config_def)

lemma scenario_first_feed:
  "get_articles_for_category scenario_config scenario_env (start_world 0) ''F1''
   = ([\<lparr>title = ''Verstappen wins'', url = ''http://x/1'', published_parsed = None\<rparr>],
      \<lparr>clock = 0, last_post_time = None, POSTED_LOG = None, CONTENT_HASH_LOG = None,
       trace = [Fetch ''https://www.formula1.com/en/latest/all-news.rss'']\<rparr>)"
  by (simp add: get_articles_for_category_def scenario_config_def scenario_env_def
      start_world_def dict_get_def fetch_rss_def emit_def)

lemma scenario_first_pass:
  "first_nonempty (pass_results scenario_env (length (trace (start_world 0))) (dict_get (RSS_FEEDS scenario_config) ''F1'')) \<noteq> []"
  by (simp add: scenario_config_def dict_get_def start_world_def fetch_result_def
      scenario_env_def first_nonempty_Cons)

lemma unknown_category_run:
  "get_articles_for_category scenario_config scenario_env (start_world 0) ''Chess''
   = ([], start_world 0)"
  by (simp add: get_articles_for_category_def scenario_config_def dict_get_def)

lemma unknown_first_pass:
  "first_nonempty (pass_results scenario_env (length (trace (start_world 0))) (dict_get (RSS_FEEDS scenario_config) ''Chess'')) = []"
  by (simp add: scenario_config_def dict_get_def)

lemma unknown_keywords:
  "map_of (FALLBACK_KEYWORDS scenario_config) ''Chess'' = None"
  by (simp add: scenario_config_def)

text \<open>
  Two feeds that are empty in the first pass and answer in the first fallback pass, a
  feed that answers at once, and a category without feeds or keywords.
\<close>

theorem C4_collect_short_circuit_witness:
  "get_articles_for_category two_feeds_config late_feeds_env (start_world 0) ''F1''
   = ([\<lparr>title = ''Verstappen wins'', url = ''http://x/1'', published_parsed = None\<rparr>,
       \<lparr>title = ''Norris on pole'', url = ''http://y/1'', published_parsed = None\<rparr>],
      \<lparr>clock = 0, last_post_time = None, POSTED_LOG = None, CONTENT_HASH_LOG = None,
       trace = [Fetch ''https://www.formula1.com/en/latest/all-news.rss'',
                Fetch ''https://www.autosport.com/rss/f1/news/'',
                Fetch ''https://www.formula1.com/en/latest/all-news.rss'',
                Fetch ''https://www.autosport.com/rss/f1/news/'']\<rparr>)
   \<and> first_nonempty (pass_results late_feeds_env (length (trace (start_world 0))) (dict_get (RSS_FEEDS two_feeds_config) ''F1'')) = []
   \<and> map_of (FALLBACK_KEYWORDS two_feeds_config) ''F1'' = Some [''Formula 1'', ''Grand Prix'', ''Motorsport'']
   \<and> [\<lparr>title = ''Verstappen wins'', url = ''http://x/1'', published_parsed = None\<rparr>,
       \<lparr>title = ''Norris on pole'', url = ''http://y/1'', published_parsed = None\<rparr>]
     = first_nonempty (fallback_passes late_feeds_env ((length (trace (start_world 0))) + length (dict_get (RSS_FEEDS two_feeds_config) ''F1'')) (dict_get (RSS_FEEDS two_feeds_config) ''F1'') [''Formula 1'', ''Grand Prix'', ''Motorsport''])
   \<and> trace \<lparr>clock = 0, last_post_time = None, POSTED_LOG = None, CONTENT_HASH_LOG = None,
       trace = [Fetch ''https://www.formula1.com/en/latest/all-news.rss'',
                Fetch ''https://www.autosport.com/rss/f1/news/'',
                Fetch ''https://www.formula1.com/en/latest/all-news.rss'',
                Fetch ''https://www.autosport.com/rss/f1/news/'']\<rparr>
     = trace (start_world 0) @ map Fetch (dict_get (RSS_FEEDS two_feeds_config) ''F1'')
       @ concat (replicate (min (Suc (leading_empty (fallback_passes late_feeds_env ((length (trace (start_world 0))) + length (dict_get (RSS_FEEDS two_feeds_config) ''F1'')) (dict_get (RSS_FEEDS two_feeds_config) ''F1'') [''Formula 1'', ''Grand Prix'', ''Motorsport'']))) (length [''Formula 1'', ''Grand Prix'', ''Motorsport''])) (map Fetch (dict_get (RSS_FEEDS two_feeds_config) ''F1'')))
   \<and> get_articles_for_category scenario_config scenario_env (start_world 0) ''F1''
   = ([\<lparr>title = ''Verstappen wins'', url = ''http://x/1'', published_parsed = None\<rparr>],
      \<lparr>clock = 0, last_post_time = None, POSTED_LOG = None, CONTENT_HASH_LOG = None,
       trace = [Fetch ''https://www.formula1.com/en/latest/all-news.rss'']\<rparr>)
   \<and> first_nonempty (pass_results scenario_env (length (trace (start_world 0))) (dict_get (RSS_FEEDS scenario_config) ''F1'')) \<noteq> []
   \<and> [\<lparr>title = ''Verstappen wins'', url = ''http://x/1'', published_parsed = None\<rparr>]
     = first_nonempty (pass_results scenario_env (length (trace (start_world 0))) (dict_get (RSS_FEEDS scenario_config) ''F1''))
   \<and> trace \<lparr>clock = 0, last_post_time = None, POSTED_LOG = None, CONTENT_HASH_LOG = None,
       trace = [Fetch ''https://www.formula1.com/en/latest/all-news.rss'']\<rparr>
     = trace (start_world 0) @ map Fetch (take (Suc (leading_empty (pass_results scenario_env (length (trace (start_world 0))) (dict_get (RSS_FEEDS scenario_config) ''F1'')))) (dict_get (RSS_FEEDS scenario_config) ''F1''))
   \<and> get_articles_for_category scenario_config scenario_env (start_world 0) ''Chess''
   = ([], start_world 0)
   \<and> first_nonempty (pass_results scenario_env (length (trace (start_world 0))) (dict_get (RSS_FEEDS scenario_config) ''Chess'')) = []
   \<and> map_of (FALLBACK_KEYWORDS scenario_config) ''Chess'' = None
   \<and> trace (start_world 0) = trace (start_world 0) @ map Fetch (dict_get (RSS_FEEDS scenario_config) ''Chess'')"
proof -
  note t = C4_collect_short_circuit [OF late_feeds_run, where alts = "[''Formula 1'', ''Grand Prix'', ''Motorsport'']"]
  from t late_feeds_first_pass late_feeds_keywords
  have c1: "[\<lparr>title = ''Verstappen wins'', url = ''http://x/1'', published_parsed = None\<rparr>,
       \<lparr>title = ''Norris on pole'', url = ''http://y/1'', published_parsed = None\<rparr>]
     = first_nonempty (fallback_passes late_feeds_env ((length (trace (start_world 0))) + length (dict_get (RSS_FEEDS two_feeds_config) ''F1'')) (dict_get (RSS_FEEDS two_feeds_config) ''F1'') [''Formula 1'', ''Grand Prix'', ''Motorsport''])"
    by blast
  from t late_feeds_first_pass late_feeds_keywords
  have c2: "trace \<lparr>clock = 0, last_post_time = None, POSTED_LOG = None, CONTENT_HASH_LOG = None,
       trace = [Fetch ''https://www.formula1.com/en/latest/all-news.rss'',
                Fetch ''https://www.autosport.com/rss/f1/news/'',
                Fetch ''https://www.formula1.com/en/latest/all-news.rss'',
                Fetch ''https://www.autosport.com/rss/f1/news/'']\<rparr>
     = trace (start_world 0) @ map Fetch (dict_get (RSS_FEEDS two_feeds_config) ''F1'')
       @ concat (replicate (min (Suc (leading_empty (fallback_passes late_feeds_env ((length (trace (start_world 0))) + length (dict_get (RSS_FEEDS two_feeds_config) ''F1'')) (dict_get (RSS_FEEDS two_feeds_config) ''F1'') [''Formula 1'', ''Grand Prix'', ''Motorsport'']))) (length [''Formula 1'', ''Grand Prix'', ''Motorsport''])) (map Fetch (dict_get (RSS_FEEDS two_feeds_config) ''F1'')))"
    by blast
  note t1 = C4_collect_short_circuit [OF scenario_first_feed]
  from t1 scenario_first_pass
  have d1: "[\<lparr>title = ''Verstappen wins'', url = ''http://x/1'', published_parsed = None\<rparr>]
     = first_nonempty (pass_results scenario_env (length (trace (start_world 0))) (dict_get (RSS_FEEDS scenario_config) ''F1''))"
    by blast
  from t1 scenario_first_pass
  have d2: "trace \<lparr>clock = 0, last_post_time = None, POSTED_LOG = None, CONTENT_HASH_LOG = None,
       trace = [Fetch ''https://www.formula1.com/en/latest/all-news.rss'']\<rparr>
     = trace (start_world 0) @ map Fetch (take (Suc (leading_empty (pass_results scenario_env (length (trace (start_world 0))) (dict_get (RSS_FEEDS scenario_config) ''F1'')))) (dict_get (RSS_FEEDS scenario_config) ''F1''))"
    by blast
  note t2 = C4_collect_short_circuit [OF unknown_category_run]
  from t2 unknown_first_pass unknown_keywords
  have d3: "trace (start_world 0) = trace (start_world 0) @ map Fetch (dict_get (RSS_FEEDS scenario_config) ''Chess'')"
    by blast
  from late_feeds_run late_feeds_first_pass late_feeds_keywords c1 c2
    scenario_first_feed scenario_first_pass d1 d2
    unknown_category_run unknown_first_pass unknown_keywords d3
  show ?thesis
    by (intro conjI)
qed

section \<open>The article loop\<close>


































lemma dead_live_result:
  "fst (articles_loop scenario_config dead_then_live_env ''F1'' None
          [dead_article, undated_article] fetched_world) = Inr True"
  by code_simp














end
